theory Spec2Isabelle
  imports Complex_Main
begin

section \<open>Data model\<close>

text \<open>
  The editor is TypeScript.  A JavaScript \<open>number\<close> is modelled as an exact \<open>real\<close>
  (\<open>int\<close> where the field is an index or a count), a string as \<open>string\<close>.
  Objects that the code compares with \<open>===\<close> or mutates in place live in a store:
  a collection of the timeline is a list of references, and the fields of the
  object behind a reference are read from the store.
\<close>

type_synonym ref = nat

datatype error = TypeError | PatchError

record Fraction =
  numerator :: int
  denominator :: int

text \<open>
  Modelled from the spec: \<open>Fraction.to01\<close> (module \<open>math\<close>) is the quotient
  \<open>numerator / denominator\<close>.  A zero denominator (NaN or Infinity in JavaScript)
  is outside the model.
\<close>

definition to01 :: "Fraction \<Rightarrow> real" where
  "to01 f = real_of_int (numerator f) / real_of_int (denominator f)"

record Note =
  nguid :: string
  noteLane :: string
  measureIndex :: int
  measurePosition :: Fraction
  horizontalPosition :: Fraction
  horizontalSize :: int
  ntype :: string
  speed :: real
  layer :: string
  time :: real
  customProps :: "(string \<times> string) list"

record NoteLine =
  nlguid :: string
  head :: string
  tail :: string
  innerNotes :: "string list"

record LanePoint =
  lpguid :: string
  lpMeasureIndex :: int
  lpMeasurePosition :: Fraction
  lpHorizontalSize :: int
  lpHorizontalPosition :: Fraction

record Lane =
  lguid :: string
  points :: "string list"
  templateName :: string
  division :: int

record OtherObject =
  otype :: int
  oguid :: string
  oMeasureIndex :: int
  oMeasurePosition :: Fraction
  ovalue :: real
  olayer :: string

record Measure =
  index :: int
  mx :: real
  my :: real
  mwidth :: real
  mheight :: real

text \<open>\<open>TimelineData\<close>: the six collections as plain values, the shape \<open>toJS\<close> produces.\<close>

record TimelineData =
  notesD :: "Note list"
  noteLinesD :: "NoteLine list"
  measuresD :: "Measure list"
  lanesD :: "Lane list"
  lanePointsD :: "LanePoint list"
  otherObjectsD :: "OtherObject list"

definition defaultTimelineData :: TimelineData where
  "defaultTimelineData =
     \<lparr>notesD = [], noteLinesD = [], measuresD = [], lanesD = [], lanePointsD = [],
      otherObjectsD = []\<rparr>"

record 'p History =
  h_undo :: 'p
  h_redo :: 'p

text \<open>
  Modelled from the spec: the \<open>TimeCalculator\<close> (module \<open>utils/TimeCalculator\<close>) is
  derived from the sorted markers and the measures.  The model keeps the two arguments
  its constructor receives; its method \<open>getTime\<close> is a parameter.
\<close>

record TimeCalculator =
  tcObjects :: "OtherObject list"
  tcMeasures :: "Measure list"

text \<open>The part of \<open>Chart\<close> the timeline reads and writes.\<close>

record Chart =
  canUndo :: bool
  canRedo :: bool
  layers :: "string list"
  currentLayer :: string

text \<open>
  The collaborators the timeline calls and whose code is not part of the modelled
  files: \<open>jsonpatch.compare\<close> and \<open>jsonpatch.applyPatch\<close> of the library
  fast-json-patch (over a patch type \<open>'p\<close>), \<open>TimeCalculator.getTime\<close> and
  \<open>Note.normalize\<close>.
\<close>

record 'p Env =
  jsonpatch_compare :: "TimelineData \<Rightarrow> TimelineData \<Rightarrow> 'p"
  jsonpatch_applyPatch :: "TimelineData \<Rightarrow> 'p \<Rightarrow> error + TimelineData"
  getTime :: "TimeCalculator \<Rightarrow> real \<Rightarrow> real"
  note_normalize :: "Note \<Rightarrow> Note"

text \<open>
  \<open>TimelineRecord\<close>.  The first six fields are the collections (arrays of object
  references), the next six the store of each class of object and \<open>nextRef\<close> the
  first reference not yet allocated; then the derived indices and the history.
\<close>

record 'p Timeline =
  "notes" :: "ref list"
  noteLines :: "ref list"
  measures :: "ref list"
  lanes :: "ref list"
  lanePoints :: "ref list"
  otherObjects :: "ref list"
  noteObj :: "ref \<Rightarrow> Note"
  noteLineObj :: "ref \<Rightarrow> NoteLine"
  measureObj :: "ref \<Rightarrow> Measure"
  laneObj :: "ref \<Rightarrow> Lane"
  lanePointObj :: "ref \<Rightarrow> LanePoint"
  otherObj :: "ref \<Rightarrow> OtherObject"
  nextRef :: ref
  noteMap :: "string \<rightharpoonup> ref"
  lanePointMap :: "string \<rightharpoonup> ref"
  laneMap :: "string \<rightharpoonup> ref"
  timeCalculator :: TimeCalculator
  histories :: "'p History list"
  historyIndex :: int
  prevData :: "TimelineData option"
  chart :: "Chart option"
  previouslyCreatedNote :: "ref option"

section \<open>Time calculation\<close>

text \<open>
  Modelled from the spec: \<open>OtherObject.isBPM\<close> is a predicate on the type of the
  object; the marker that \<open>removeOtherObject\<close> synthesises as BPM has type 0.
\<close>

definition isBPM :: "OtherObject \<Rightarrow> bool" where
  "isBPM ob \<longleftrightarrow> otype ob = 0"

definition notePos :: "Note \<Rightarrow> real" where
  "notePos n = real_of_int (measureIndex n) + to01 (measurePosition n)"

definition objectPos :: "OtherObject \<Rightarrow> real" where
  "objectPos ob = real_of_int (oMeasureIndex ob) + to01 (oMeasurePosition ob)"

text \<open>
  Modelled from the spec: the comparator \<open>sortMeasure\<close> (module \<open>Measure\<close>) orders by
  chart position; \<open>Array.prototype.sort\<close> is stable.
\<close>

definition sortMeasure :: "OtherObject list \<Rightarrow> OtherObject list" where
  "sortMeasure obs = sort_key objectPos obs"

definition setTime :: "'p Env \<Rightarrow> TimeCalculator \<Rightarrow> Note \<Rightarrow> Note" where
  "setTime E tc n = n\<lparr>time := getTime E tc (notePos n)\<rparr>"

definition calculateTime :: "'p Env \<Rightarrow> 'p Timeline \<Rightarrow> 'p Timeline" where
  "calculateTime E t =
     (let tc = \<lparr>tcObjects = sortMeasure (map (otherObj t) (otherObjects t)),
                tcMeasures = map (measureObj t) (measures t)\<rparr>
      in t\<lparr>timeCalculator := tc,
           noteObj := fold (\<lambda>note h. h(note := setTime E tc (h note))) (notes t) (noteObj t)\<rparr>)"

section \<open>Other objects\<close>

definition addOtherObject :: "'p Env \<Rightarrow> 'p Timeline \<Rightarrow> ref \<Rightarrow> 'p Timeline" where
  "addOtherObject E t object =
     (let t1 = t\<lparr>otherObjects := otherObjects t @ [object]\<rparr>
      in if isBPM (otherObj t1 object) then calculateTime E t1 else t1)"

text \<open>
  Modelled from the spec: \<open>OtherObjectRecord.createInstance\<close> (module \<open>OtherObject\<close>)
  makes the record of an object from its data; here the allocation of a new object
  holding the data.
\<close>

definition createInstance :: "OtherObject \<Rightarrow> 'p Timeline \<Rightarrow> ref \<times> 'p Timeline" where
  "createInstance d t =
     (nextRef t, t\<lparr>otherObj := (otherObj t)(nextRef t := d), nextRef := Suc (nextRef t)\<rparr>)"

text \<open>
  \<open>removeOtherObject\<close>; \<open>g\<close> is the string the call of \<open>guid()\<close> returns.  Reading
  \<open>this.chart!.layers[0].guid\<close> throws when there is no chart or no layer.
\<close>

definition removeOtherObject ::
  "'p Env \<Rightarrow> 'p Timeline \<Rightarrow> ref \<Rightarrow> string \<Rightarrow> error + 'p Timeline" where
  "removeOtherObject E t object g =
     (let t1 = t\<lparr>otherObjects := filter (\<lambda>obj. obj \<noteq> object) (otherObjects t)\<rparr>
      in if isBPM (otherObj t1 object) then
           (if \<not> list_ex (\<lambda>ob. isBPM (otherObj t1 ob)) (otherObjects t1) then
              (case chart t1 of
                 None \<Rightarrow> Inl TypeError
               | Some c \<Rightarrow>
                  (case layers c of
                     [] \<Rightarrow> Inl TypeError
                   | l # _ \<Rightarrow>
                      (let (r, t2) = createInstance
                             \<lparr>otype = 0, oguid = g, oMeasureIndex = 0,
                              oMeasurePosition = \<lparr>numerator = 0, denominator = 1\<rparr>,
                              ovalue = 120, olayer = l\<rparr> t1
                       in Inr (calculateTime E (addOtherObject E t2 r)))))
            else Inr (calculateTime E t1))
         else Inr t1)"

definition bpmChanges :: "'p Timeline \<Rightarrow> ref list" where
  "bpmChanges t = filter (\<lambda>ob. isBPM (otherObj t ob)) (otherObjects t)"

section \<open>Notes and note lines\<close>

definition updateNoteMap :: "'p Env \<Rightarrow> 'p Timeline \<Rightarrow> 'p Timeline" where
  "updateNoteMap E t =
     calculateTime E
       (t\<lparr>noteMap := fold (\<lambda>note m. m(nguid (noteObj t note) \<mapsto> note)) (notes t) Map.empty\<rparr>)"

definition addNote :: "'p Env \<Rightarrow> 'p Timeline \<Rightarrow> ref \<Rightarrow> bool \<Rightarrow> 'p Timeline" where
  "addNote E t note updMap =
     (let t1 = t\<lparr>notes := notes t @ [note]\<rparr>
      in if updMap then updateNoteMap E t1 else t1)"

definition addNoteLine :: "'p Timeline \<Rightarrow> ref \<Rightarrow> 'p Timeline" where
  "addNoteLine t noteLine = t\<lparr>noteLines := noteLines t @ [noteLine]\<rparr>"

definition removeNoteLine :: "'p Timeline \<Rightarrow> ref \<Rightarrow> 'p Timeline" where
  "removeNoteLine t noteLine =
     t\<lparr>noteLines := filter (\<lambda>nl. nl \<noteq> noteLine) (noteLines t)\<rparr>"

definition stripInner :: "string \<Rightarrow> NoteLine \<Rightarrow> NoteLine" where
  "stripInner g nl = nl\<lparr>innerNotes := filter (\<lambda>guid. guid \<noteq> g) (innerNotes nl)\<rparr>"

definition removeNote :: "'p Env \<Rightarrow> 'p Timeline \<Rightarrow> ref \<Rightarrow> bool \<Rightarrow> 'p Timeline" where
  "removeNote E t note updMap =
     (let g = nguid (noteObj t note);
          t1 = (case previouslyCreatedNote t of
                  None \<Rightarrow> t
                | Some p \<Rightarrow> if g = nguid (noteObj t p)
                            then t\<lparr>previouslyCreatedNote := None\<rparr> else t);
          t2 = fold (\<lambda>nl s. removeNoteLine s nl)
                 (filter (\<lambda>nl. head (noteLineObj t1 nl) = g \<or> tail (noteLineObj t1 nl) = g)
                    (noteLines t1)) t1;
          t3 = t2\<lparr>noteLineObj :=
                    fold (\<lambda>nl h. h(nl := stripInner g (h nl))) (noteLines t2) (noteLineObj t2)\<rparr>;
          t4 = t3\<lparr>notes := filter (\<lambda>n. n \<noteq> note) (notes t3)\<rparr>
      in if updMap then updateNoteMap E t4 else t4)"

section \<open>Example states\<close>

text \<open>Default objects, the state a constructor leaves, and small concrete charts.\<close>

definition defaultNote :: Note where
  "defaultNote = \<lparr>nguid = '''', noteLane = '''', measureIndex = 0,
     measurePosition = \<lparr>numerator = 0, denominator = 1\<rparr>,
     horizontalPosition = \<lparr>numerator = 0, denominator = 1\<rparr>,
     horizontalSize = 1, ntype = '''', speed = 1, layer = '''', time = 0, customProps = []\<rparr>"

definition defaultNoteLine :: NoteLine where
  "defaultNoteLine = \<lparr>nlguid = '''', head = '''', tail = '''', innerNotes = []\<rparr>"

definition defaultLanePoint :: LanePoint where
  "defaultLanePoint = \<lparr>lpguid = '''', lpMeasureIndex = 0,
     lpMeasurePosition = \<lparr>numerator = 0, denominator = 1\<rparr>, lpHorizontalSize = 1,
     lpHorizontalPosition = \<lparr>numerator = 0, denominator = 1\<rparr>\<rparr>"

definition defaultLane :: Lane where
  "defaultLane = \<lparr>lguid = '''', points = [], templateName = '''', division = 1\<rparr>"

definition defaultMeasure :: Measure where
  "defaultMeasure = \<lparr>index = 0, mx = 0, my = 0, mwidth = 0, mheight = 0\<rparr>"

definition defaultOtherObject :: OtherObject where
  "defaultOtherObject = \<lparr>otype = 0, oguid = '''', oMeasureIndex = 0,
     oMeasurePosition = \<lparr>numerator = 0, denominator = 1\<rparr>, ovalue = 0, olayer = ''''\<rparr>"

text \<open>
  The object \<open>new TimelineRecord(chart)\<close> builds from the default data: empty collections,
  empty maps, a \<open>TimeCalculator\<close> of nothing, no history and no chart.  A reference that
  is not allocated holds a default object.
\<close>

definition TimelineRecord :: "'p Timeline" where
  "TimelineRecord =
     \<lparr>notes = [], noteLines = [], measures = [], lanes = [], lanePoints = [],
      otherObjects = [],
      noteObj = (\<lambda>_. defaultNote), noteLineObj = (\<lambda>_. defaultNoteLine),
      measureObj = (\<lambda>_. defaultMeasure), laneObj = (\<lambda>_. defaultLane), lanePointObj = (\<lambda>_. defaultLanePoint),
      otherObj = (\<lambda>_. defaultOtherObject), nextRef = 0,
      noteMap = Map.empty, lanePointMap = Map.empty, laneMap = Map.empty,
      timeCalculator = \<lparr>tcObjects = [], tcMeasures = []\<rparr>,
      histories = [], historyIndex = 0, prevData = None, chart = None,
      previouslyCreatedNote = None\<rparr>"

text \<open>
  Collaborators for the examples: a patch is the pair of the document it was computed
  from and the document it leads to, and applies to the former only; the time of a chart
  position is twice the position; \<open>normalize\<close> changes nothing.
\<close>

definition exampleEnv :: "(TimelineData \<times> TimelineData) Env" where
  "exampleEnv =
     \<lparr>jsonpatch_compare = (\<lambda>a b. (a, b)),
      jsonpatch_applyPatch = (\<lambda>d p. if d = fst p then Inr (snd p) else Inl PatchError),
      getTime = (\<lambda>tc v. 2 * v),
      note_normalize = (\<lambda>n. n)\<rparr>"

definition exampleChart :: Chart where
  "exampleChart = \<lparr>canUndo = False, canRedo = False, layers = [''layer1''],
     currentLayer = ''layer1''\<rparr>"

text \<open>Three notes \<open>a\<close>, \<open>b\<close>, \<open>c\<close>; a line from \<open>a\<close> to \<open>b\<close> with the inner note
  \<open>c\<close>, and a line from \<open>b\<close> to \<open>c\<close>.\<close>

definition exampleLines :: "(TimelineData \<times> TimelineData) Timeline" where
  "exampleLines = TimelineRecord
     \<lparr>notes := [0, 1, 2], noteLines := [0, 1],
      noteObj := (\<lambda>_. defaultNote)
         (0 := defaultNote\<lparr>nguid := ''a''\<rparr>, 1 := defaultNote\<lparr>nguid := ''b''\<rparr>,
          2 := defaultNote\<lparr>nguid := ''c''\<rparr>),
      noteLineObj := (\<lambda>_. defaultNoteLine)
         (0 := \<lparr>nlguid = ''l0'', head = ''a'', tail = ''b'', innerNotes = [''c'']\<rparr>,
          1 := \<lparr>nlguid = ''l1'', head = ''b'', tail = ''c'', innerNotes = []\<rparr>),
      nextRef := 3, chart := Some exampleChart\<rparr>"

text \<open>A timeline with one BPM marker (object 0) and one speed marker (object 2).\<close>

definition exampleBpm :: "(TimelineData \<times> TimelineData) Timeline" where
  "exampleBpm = TimelineRecord
     \<lparr>otherObjects := [0, 2],
      otherObj := (\<lambda>_. defaultOtherObject)
         (0 := \<lparr>otype = 0, oguid = ''bpm'', oMeasureIndex = 2,
                 oMeasurePosition = \<lparr>numerator = 1, denominator = 2\<rparr>, ovalue = 180,
                 olayer = ''layer1''\<rparr>,
          2 := \<lparr>otype = 1, oguid = ''speed'', oMeasureIndex = 1,
                 oMeasurePosition = \<lparr>numerator = 0, denominator = 1\<rparr>, ovalue = 2,
                 olayer = ''layer1''\<rparr>),
      nextRef := 3, chart := Some exampleChart\<rparr>"

section \<open>Lane geometry\<close>

record Vector2 =
  vx :: real
  vy :: real

record LinePointInfo =
  point :: Vector2
  width :: real

record LineInfo =
  lineMeasure :: ref
  lineStart :: LinePointInfo
  lineEnd :: LinePointInfo

record NotePointInfo =
  infoLane :: ref
  linePointInfo :: "LinePointInfo option"
  horizontalIndex :: int
  verticalIndex :: int
  infoMeasureIndex :: int

text \<open>
  Coordinates are JavaScript numbers (IEEE doubles) in the program and exact reals here:
  an equation between computed coordinates below is one of exact arithmetic, which the
  program meets up to rounding.  Where the program divides by zero it computes \<open>NaN\<close> or
  an infinity, and division by zero gives 0 here: \<open>inverseLerp\<close> between equal bounds
  (two control points at one chart position in \<open>getLines\<close>, a cached line of height 0 in
  \<open>getNotePointInfo\<close>) and \<open>to01\<close> of a fraction with denominator 0.

  Modelled from the spec: \<open>lerp\<close> and \<open>inverseLerp\<close> (module \<open>math\<close>) are linear
  interpolation and the fraction of a value along an interval.
\<close>

definition lerp :: "real \<Rightarrow> real \<Rightarrow> real \<Rightarrow> real" where
  "lerp a b p = a + (b - a) * p"

definition inverseLerp :: "real \<Rightarrow> real \<Rightarrow> real \<Rightarrow> real" where
  "inverseLerp a b v = (v - a) / (b - a)"

text \<open>The three numbers \<open>getLines\<close> derives from a control point.\<close>

record LinePos =
  posX :: real
  posWidth :: real
  posValue :: real

definition lanePointPos :: "LanePoint \<Rightarrow> real" where
  "lanePointPos lp = real_of_int (lpMeasureIndex lp) + to01 (lpMeasurePosition lp)"

definition toLinePos :: "LanePoint \<Rightarrow> LinePos" where
  "toLinePos p =
     \<lparr>posX = to01 (lpHorizontalPosition p),
      posWidth = real_of_int (lpHorizontalSize p) /
                 real_of_int (denominator (lpHorizontalPosition p)),
      posValue = lanePointPos p\<rparr>"

text \<open>\<open>toLinePointInfo\<close>: reading \<open>measures[measureIndex]\<close> out of range gives
  \<open>undefined\<close>, and reading its \<open>x\<close> throws.\<close>

definition toLinePointInfo ::
  "(ref \<Rightarrow> Measure) \<Rightarrow> ref list \<Rightarrow> LinePos \<Rightarrow> LinePos \<Rightarrow> int \<Rightarrow> real \<Rightarrow>
   error + LinePointInfo" where
  "toLinePointInfo M ms p1 p2 mi v =
     (if mi < 0 \<or> int (length ms) \<le> mi then Inl TypeError
      else
        (let m = M (ms ! nat mi);
             p = inverseLerp (posValue p1) (posValue p2) v
         in Inr \<lparr>point = \<lparr>vx = mx m + mwidth m * lerp (posX p1) (posX p2) p,
                            vy = my m + mheight m * (real_of_int mi + 1 - v)\<rparr>,
                  width = mwidth m * lerp (posWidth p1) (posWidth p2) p\<rparr>))"

definition lineOf ::
  "(ref \<Rightarrow> Measure) \<Rightarrow> ref list \<Rightarrow> LinePos \<Rightarrow> LinePos \<Rightarrow> real \<Rightarrow> real \<Rightarrow> error + LineInfo" where
  "lineOf M ms p1 p2 v1 v2 =
     (case toLinePointInfo M ms p1 p2 \<lfloor>v1\<rfloor> v1 of
        Inl e \<Rightarrow> Inl e
      | Inr s \<Rightarrow>
         (case toLinePointInfo M ms p1 p2 \<lfloor>v1\<rfloor> v2 of
            Inl e \<Rightarrow> Inl e
          | Inr e \<Rightarrow> Inr \<lparr>lineMeasure = ms ! nat \<lfloor>v1\<rfloor>, lineStart = s, lineEnd = e\<rparr>))"

text \<open>The \<open>while (true)\<close> loop of \<open>getLines\<close> between two control points.\<close>

function lineLoop ::
  "(real \<Rightarrow> real \<Rightarrow> error + LineInfo) \<Rightarrow> real \<Rightarrow> real \<Rightarrow> real \<Rightarrow> error + LineInfo list" where
  "lineLoop mk p2v v1 v2 =
     (case mk v1 v2 of
        Inl e \<Rightarrow> Inl e
      | Inr line \<Rightarrow>
         if v2 = p2v then Inr [line]
         else (case lineLoop mk p2v v2 (min (v2 + 1) p2v) of
                 Inl e \<Rightarrow> Inl e
               | Inr ls \<Rightarrow> Inr (line # ls)))"
  by pat_completeness auto
termination
proof (relation "measure (\<lambda>(mk, p2v, v1, v2).
         if v2 = p2v then 0 else if p2v < v2 then 1 else nat \<lceil>p2v - v2\<rceil>)")
  show "wf (measure (\<lambda>(mk, p2v, v1, v2).
         if v2 = p2v then 0 else if p2v < v2 then 1 else nat \<lceil>p2v - v2\<rceil>))"
    by simp
next
  fix mk :: "real \<Rightarrow> real \<Rightarrow> error + LineInfo" and p2v v1 v2 :: real and x2
  assume "v2 \<noteq> p2v"
  then show "((mk, p2v, v2, min (v2 + 1) p2v), mk, p2v, v1, v2)
       \<in> measure (\<lambda>(mk, p2v, v1, v2).
         if v2 = p2v then 0 else if p2v < v2 then 1 else nat \<lceil>p2v - v2\<rceil>)"
    by (auto simp: min_def) linarith+
qed

declare lineLoop.simps [simp del]

fun pairLines :: "(ref \<Rightarrow> Measure) \<Rightarrow> ref list \<Rightarrow> LinePos list \<Rightarrow> error + LineInfo list" where
  "pairLines M ms (p1 # p2 # ps) =
     (case lineLoop (lineOf M ms p1 p2) (posValue p2) (posValue p1)
             (min (real_of_int \<lfloor>posValue p1\<rfloor> + 1) (posValue p2)) of
        Inl e \<Rightarrow> Inl e
      | Inr ls \<Rightarrow>
         (case pairLines M ms (p2 # ps) of
            Inl e \<Rightarrow> Inl e
          | Inr ls' \<Rightarrow> Inr (ls @ ls')))"
| "pairLines M ms ps = Inr []"

definition getLines :: "(ref \<Rightarrow> Measure) \<Rightarrow> LanePoint list \<Rightarrow> ref list \<Rightarrow> error + LineInfo list" where
  "getLines M pts ms = pairLines M ms (map toLinePos (sort_key lanePointPos pts))"

text \<open>\<open>linesCache\<close>: a \<open>WeakMap\<close> from lane objects to their lines.\<close>

type_synonym LinesCache = "ref \<rightharpoonup> LineInfo list"

definition getNotePointInfo ::
  "LinesCache \<Rightarrow> (ref \<Rightarrow> Measure) \<Rightarrow> ref \<Rightarrow> ref \<Rightarrow> Fraction \<Rightarrow> Fraction \<Rightarrow>
   LinePointInfo option" where
  "getNotePointInfo linesCache M lane meas horizontal vertical =
     (let y = my (M meas) + mheight (M meas) * (1 - to01 vertical)
      in case List.find
                (\<lambda>line. lineMeasure line = meas \<and> y \<le> vy (point (lineStart line)) \<and>
                         vy (point (lineEnd line)) \<le> y)
                (case linesCache lane of None \<Rightarrow> [] | Some ls \<Rightarrow> ls) of
           None \<Rightarrow> None
         | Some targetLine \<Rightarrow>
            (let start = lineStart targetLine;
                 end = lineEnd targetLine;
                 rate = inverseLerp (vy (point end)) (vy (point start)) y;
                 getX = (\<lambda>info i. vx (point info) +
                           width info * (to01 horizontal + i / real_of_int (denominator horizontal)));
                 left = lerp (getX end 0) (getX start 0) rate;
                 right = lerp (getX end 1) (getX start 1) rate
             in Some \<lparr>point = \<lparr>vx = left, vy = y\<rparr>, width = right - left\<rparr>))"

definition hitCell ::
  "LinesCache \<Rightarrow> (ref \<Rightarrow> Measure) \<Rightarrow> (ref \<Rightarrow> Lane) \<Rightarrow> ref \<Rightarrow> ref \<Rightarrow> int \<Rightarrow> Vector2 \<Rightarrow>
   int \<times> int \<Rightarrow> bool" where
  "hitCell linesCache M L lane meas measureDivision mousePosition c =
     (let height = mheight (M meas) / real_of_int measureDivision / 2
      in case getNotePointInfo linesCache M lane meas
                \<lparr>numerator = fst c, denominator = division (L lane)\<rparr>
                \<lparr>numerator = snd c, denominator = measureDivision\<rparr> of
           None \<Rightarrow> False
         | Some data \<Rightarrow>
             vx (point data) \<le> vx mousePosition \<and>
             vx mousePosition < vx (point data) + width data \<and>
             vy (point data) - height \<le> vy mousePosition \<and>
             vy mousePosition < vy (point data) + height)"

definition getNotePointInfoFromMousePosition ::
  "LinesCache \<Rightarrow> (ref \<Rightarrow> Measure) \<Rightarrow> (ref \<Rightarrow> Lane) \<Rightarrow> ref \<Rightarrow> ref \<Rightarrow> ref \<Rightarrow> int \<Rightarrow> Vector2 \<Rightarrow>
   bool \<Rightarrow> NotePointInfo option" where
  "getNotePointInfoFromMousePosition linesCache M L lane meas nextMeas measureDivision
       mousePosition isResizeOrDragMode =
     (let left = (if isResizeOrDragMode then - division (L lane) else 0);
          right = division (L lane) + (if isResizeOrDragMode then 1 else 0)
      in case List.find (hitCell linesCache M L lane meas measureDivision mousePosition)
                (concat (map (\<lambda>i. map (\<lambda>j. (i, j)) [0..measureDivision]) [left..right - 1])) of
           None \<Rightarrow> None
         | Some (i, j) \<Rightarrow>
             if j = measureDivision then
               Some \<lparr>infoLane = lane,
                     linePointInfo = getNotePointInfo linesCache M lane nextMeas
                        \<lparr>numerator = i, denominator = division (L lane)\<rparr>
                        \<lparr>numerator = 0, denominator = measureDivision\<rparr>,
                     horizontalIndex = i, verticalIndex = measureDivision - 1,
                     infoMeasureIndex = index (M nextMeas)\<rparr>
             else
               Some \<lparr>infoLane = lane,
                     linePointInfo = getNotePointInfo linesCache M lane meas
                        \<lparr>numerator = i, denominator = division (L lane)\<rparr>
                        \<lparr>numerator = j, denominator = measureDivision\<rparr>,
                     horizontalIndex = i, verticalIndex = measureDivision - j - 1,
                     infoMeasureIndex = index (M meas)\<rparr>)"

text \<open>
  \<open>render\<close>, as far as the cache goes: it computes the lines of the lane and stores them
  under the lane; a control point missing from \<open>lanePointMap\<close> or a meas out of range
  throws before the cache is written.  Drawing is outside the model.
\<close>

definition render ::
  "LinesCache \<Rightarrow> (ref \<Rightarrow> Measure) \<Rightarrow> (ref \<Rightarrow> Lane) \<Rightarrow> (ref \<Rightarrow> LanePoint) \<Rightarrow> ref \<Rightarrow>
   (string \<rightharpoonup> ref) \<Rightarrow> ref list \<Rightarrow> error + LinesCache" where
  "render linesCache M L P lane pointMap ms =
     (if list_ex (\<lambda>g. pointMap g = None) (points (L lane)) then Inl TypeError
      else
        (case getLines M (map (\<lambda>g. P (the (pointMap g))) (points (L lane))) ms of
           Inl e \<Rightarrow> Inl e
         | Inr lines \<Rightarrow> Inr (linesCache(lane \<mapsto> lines))))"

text \<open>The cache after a run of \<open>render\<close> calls; a call that throws leaves it as it was.\<close>

record RenderCall =
  rcMeasures :: "ref \<Rightarrow> Measure"
  rcLanes :: "ref \<Rightarrow> Lane"
  rcLanePoints :: "ref \<Rightarrow> LanePoint"
  rcLane :: ref
  rcPointMap :: "string \<rightharpoonup> ref"
  rcMeasureList :: "ref list"

definition renderCall :: "RenderCall \<Rightarrow> LinesCache \<Rightarrow> LinesCache" where
  "renderCall c linesCache =
     (case render linesCache (rcMeasures c) (rcLanes c) (rcLanePoints c) (rcLane c)
             (rcPointMap c) (rcMeasureList c) of
        Inl e \<Rightarrow> linesCache
      | Inr linesCache' \<Rightarrow> linesCache')"

text \<open>
  A cache with lane 0 only: one line in measure 0 and one in measure 2, each 80 wide
  from y = 100 down to y = 0.  Both measures are 100 high with their top at y = 0, and
  every lane has 4 columns.
\<close>

definition exampleCache :: LinesCache where
  "exampleCache = Map.empty
     (0 \<mapsto> [\<lparr>lineMeasure = 0,
                   lineStart = \<lparr>point = \<lparr>vx = 10, vy = 100\<rparr>, width = 80\<rparr>,
                   lineEnd = \<lparr>point = \<lparr>vx = 10, vy = 0\<rparr>, width = 80\<rparr>\<rparr>,
                \<lparr>lineMeasure = 2,
                   lineStart = \<lparr>point = \<lparr>vx = 10, vy = 100\<rparr>, width = 80\<rparr>,
                   lineEnd = \<lparr>point = \<lparr>vx = 10, vy = 0\<rparr>, width = 80\<rparr>\<rparr>])"

definition exampleMeasures :: "ref \<Rightarrow> Measure" where
  "exampleMeasures =
     (\<lambda>_. defaultMeasure)
       (0 := \<lparr>index = 0, mx = 10, my = 0, mwidth = 80, mheight = 100\<rparr>,
        2 := \<lparr>index = 1, mx = 10, my = 0, mwidth = 80, mheight = 100\<rparr>)"

definition exampleLanes :: "ref \<Rightarrow> Lane" where
  "exampleLanes = (\<lambda>_. \<lparr>lguid = ''lane'', points = [], templateName = ''normal'', division = 4\<rparr>)"

section \<open>Lanes and lane points\<close>

definition updateLanePointMap :: "'p Timeline \<Rightarrow> 'p Timeline" where
  "updateLanePointMap t =
     t\<lparr>lanePointMap :=
          fold (\<lambda>lp m. m(lpguid (lanePointObj t lp) \<mapsto> lp)) (lanePoints t) Map.empty\<rparr>"

definition addLanePoint :: "'p Timeline \<Rightarrow> ref \<Rightarrow> 'p Timeline" where
  "addLanePoint t v = updateLanePointMap (t\<lparr>lanePoints := lanePoints t @ [v]\<rparr>)"

definition updateLaneMap :: "'p Env \<Rightarrow> 'p Timeline \<Rightarrow> 'p Timeline" where
  "updateLaneMap E t =
     calculateTime E
       (t\<lparr>laneMap := fold (\<lambda>l m. m(lguid (laneObj t l) \<mapsto> l)) (lanes t) Map.empty\<rparr>)"

definition setLanes :: "'p Env \<Rightarrow> 'p Timeline \<Rightarrow> ref list \<Rightarrow> 'p Timeline" where
  "setLanes E t ls = updateLaneMap E (t\<lparr>lanes := ls\<rparr>)"

definition addLane :: "'p Env \<Rightarrow> 'p Timeline \<Rightarrow> ref \<Rightarrow> 'p Timeline" where
  "addLane E t l = updateLaneMap E (t\<lparr>lanes := lanes t @ [l]\<rparr>)"

section \<open>optimizeLane\<close>

definition findLanePoint :: "'p Timeline \<Rightarrow> string \<Rightarrow> ref option" where
  "findLanePoint t g = List.find (\<lambda>lp. lpguid (lanePointObj t lp) = g) (lanePoints t)"

text \<open>The key the comparator of \<open>optimizeLane\<close> computes for a guid that \<open>find\<close> resolves.\<close>

definition pointPosition :: "'p Timeline \<Rightarrow> string \<Rightarrow> real" where
  "pointPosition t g =
     (case findLanePoint t g of None \<Rightarrow> 0 | Some lp \<Rightarrow> lanePointPos (lanePointObj t lp))"

text \<open>
  Sorting the points of one lane.  \<open>Array.prototype.sort\<close> is stable; it calls the
  comparator only on an array of two or more elements, and then on each of them, and
  the comparator throws on a guid that no lane point has.
\<close>

definition sortLane :: "'p Timeline \<Rightarrow> ref \<Rightarrow> error + 'p Timeline" where
  "sortLane t l =
     (let pts = points (laneObj t l)
      in if 2 \<le> length pts \<and> list_ex (\<lambda>g. findLanePoint t g = None) pts then Inl TypeError
         else Inr (t\<lparr>laneObj := (laneObj t)
                      (l := (laneObj t l)\<lparr>points := sort_key (pointPosition t) pts\<rparr>)\<rparr>))"

fun sortLanes :: "'p Timeline \<Rightarrow> ref list \<Rightarrow> error + 'p Timeline" where
  "sortLanes t [] = Inr t"
| "sortLanes t (l # ls) = (case sortLane t l of Inl e \<Rightarrow> Inl e | Inr t' \<Rightarrow> sortLanes t' ls)"

text \<open>\<open>lane.points[lane.points.length - 1]\<close> and \<open>lane2.points[0]\<close>; \<open>None\<close> is \<open>undefined\<close>.\<close>

definition lastPoint :: "Lane \<Rightarrow> string option" where
  "lastPoint l = (if points l = [] then None else Some (last (points l)))"

definition firstPoint :: "Lane \<Rightarrow> string option" where
  "firstPoint l = (case points l of [] \<Rightarrow> None | g # _ \<Rightarrow> Some g)"

definition nextLaneOf :: "'p Timeline \<Rightarrow> ref \<Rightarrow> ref option" where
  "nextLaneOf t l =
     List.find (\<lambda>lane2. lane2 \<noteq> l \<and> firstPoint (laneObj t lane2) = lastPoint (laneObj t l))
       (lanes t)"

text \<open>The \<open>for\<close> loop of the merge phase: the first lane that has a next lane.\<close>

fun firstMerge :: "'p Timeline \<Rightarrow> ref list \<Rightarrow> (ref \<times> ref) option" where
  "firstMerge t [] = None"
| "firstMerge t (l # ls) =
     (case nextLaneOf t l of None \<Rightarrow> firstMerge t ls | Some nextLane \<Rightarrow> Some (l, nextLane))"

definition findIndex :: "('a \<Rightarrow> bool) \<Rightarrow> 'a list \<Rightarrow> nat" where
  "findIndex P xs = length (takeWhile (\<lambda>x. \<not> P x) xs)"

definition mergeLanes :: "'p Env \<Rightarrow> 'p Timeline \<Rightarrow> ref \<Rightarrow> ref \<Rightarrow> 'p Timeline" where
  "mergeLanes E t l nextLane =
     (let t1 = t\<lparr>noteObj :=
                   fold (\<lambda>note h. h(note := (h note)\<lparr>noteLane := lguid (laneObj t l)\<rparr>))
                     (filter (\<lambda>note. noteLane (noteObj t note) = lguid (laneObj t nextLane))
                        (notes t))
                     (noteObj t)\<rparr>;
          nextLaneIndex = findIndex (\<lambda>x. x = nextLane) (lanes t1);
          t2 = t1\<lparr>laneObj := (laneObj t1)
                  (l := (laneObj t1 l)
                     \<lparr>points := points (laneObj t1 l) @ drop 1 (points (laneObj t1 nextLane))\<rparr>)\<rparr>
      in setLanes E t2 (take nextLaneIndex (lanes t2) @ drop (Suc nextLaneIndex) (lanes t2)))"

function mergeLoop :: "'p Env \<Rightarrow> 'p Timeline \<Rightarrow> 'p Timeline" where
  "mergeLoop E t =
     (case firstMerge t (lanes t) of
        None \<Rightarrow> t
      | Some (l, nextLane) \<Rightarrow> mergeLoop E (mergeLanes E t l nextLane))"
  by pat_completeness auto
termination
proof (relation "measure (\<lambda>(E, t). length (lanes t))")
  show "wf (measure (\<lambda>(E :: 'p Env, t :: 'p Timeline). length (lanes t)))" by simp
next
  fix E :: "'p Env" and t :: "'p Timeline" and x2 l nextLane
  assume f: "firstMerge t (lanes t) = Some x2" and x: "(l, nextLane) = x2"
  have "\<And>ls. firstMerge t ls = Some (l, nextLane) \<Longrightarrow> nextLane \<in> set (lanes t)"
  proof -
    fix ls show "firstMerge t ls = Some (l, nextLane) \<Longrightarrow> nextLane \<in> set (lanes t)"
    proof (induction ls)
      case Nil then show ?case by simp
    next
      case (Cons a ls)
      show ?case
      proof (cases "nextLaneOf t a")
        case None with Cons show ?thesis by simp
      next
        case (Some n)
        with Cons.prems have "n = nextLane" by simp
        with Some have "List.find (\<lambda>lane2. lane2 \<noteq> a \<and>
            firstPoint (laneObj t lane2) = lastPoint (laneObj t a)) (lanes t) = Some nextLane"
          by (simp add: nextLaneOf_def)
        then show ?thesis by (auto simp: find_Some_iff)
      qed
    qed
  qed
  with f x have mem: "nextLane \<in> set (lanes t)" by simp
  have "\<And>xs :: ref list. nextLane \<in> set xs \<Longrightarrow>
      length (takeWhile (\<lambda>x. \<not> x = nextLane) xs) < length xs"
  proof -
    fix xs :: "ref list"
    show "nextLane \<in> set xs \<Longrightarrow> length (takeWhile (\<lambda>x. \<not> x = nextLane) xs) < length xs"
      by (induction xs) auto
  qed
  with mem have "findIndex (\<lambda>x. x = nextLane) (lanes t) < length (lanes t)"
    by (simp add: findIndex_def)
  then show "((E, mergeLanes E t l nextLane), E, t) \<in> measure (\<lambda>(E, t). length (lanes t))"
    by (simp add: mergeLanes_def Let_def setLanes_def updateLaneMap_def calculateTime_def)
qed

declare mergeLoop.simps [simp del]

definition optimizeLane :: "'p Env \<Rightarrow> 'p Timeline \<Rightarrow> error + 'p Timeline" where
  "optimizeLane E t =
     (case sortLanes t (lanes t) of Inl e \<Rightarrow> Inl e | Inr t1 \<Rightarrow> Inr (mergeLoop E t1))"

text \<open>Two lanes that share the control point \<open>b\<close>, the first one out of order.\<close>

definition exampleTwoLanes :: "(TimelineData \<times> TimelineData) Timeline" where
  "exampleTwoLanes = TimelineRecord
     \<lparr>notes := [0], lanes := [0, 2], lanePoints := [0, 2, 3],
      noteObj := (\<lambda>_. defaultNote)(0 := defaultNote\<lparr>nguid := ''n'', noteLane := ''l2''\<rparr>),
      laneObj := (\<lambda>_. defaultLane)
         (0 := \<lparr>lguid = ''l0'', points = [''b'', ''a''], templateName = ''normal'', division = 4\<rparr>,
          2 := \<lparr>lguid = ''l2'', points = [''b'', ''c''], templateName = ''normal'', division = 4\<rparr>),
      lanePointObj := (\<lambda>_. defaultLanePoint)
         (0 := defaultLanePoint\<lparr>lpguid := ''a'', lpMeasureIndex := 0\<rparr>,
          2 := defaultLanePoint\<lparr>lpguid := ''b'', lpMeasureIndex := 1\<rparr>,
          3 := defaultLanePoint\<lparr>lpguid := ''c'', lpMeasureIndex := 2\<rparr>),
      nextRef := 4, chart := Some exampleChart\<rparr>"

text \<open>
  What the sort phase establishes for a lane and a merge preserves: the points are in
  order of position, and a lane of two or more points has a lane point for each guid.
\<close>

definition goodLane :: "'p Timeline \<Rightarrow> ref \<Rightarrow> bool" where
  "goodLane t l \<longleftrightarrow>
     sorted (map (pointPosition t) (points (laneObj t l))) \<and>
     (2 \<le> length (points (laneObj t l)) \<longrightarrow>
        (\<forall>g \<in> set (points (laneObj t l)). findLanePoint t g \<noteq> None))"

text \<open>\<open>exampleTwoLanes\<close> after the sort phase.\<close>

definition exampleSorted :: "(TimelineData \<times> TimelineData) Timeline" where
  "exampleSorted = exampleTwoLanes\<lparr>laneObj := (laneObj exampleTwoLanes)
        (0 := \<lparr>lguid = ''l0'', points = [''a'', ''b''], templateName = ''normal'', division = 4\<rparr>)\<rparr>"

section \<open>Serialisation and reload\<close>

definition toJS :: "'p Timeline \<Rightarrow> TimelineData" where
  "toJS t =
     \<lparr>notesD = map (noteObj t) (notes t),
      noteLinesD = map (noteLineObj t) (noteLines t),
      measuresD = map (measureObj t) (measures t),
      lanesD = map (laneObj t) (lanes t),
      lanePointsD = map (lanePointObj t) (lanePoints t),
      otherObjectsD = map (otherObj t) (otherObjects t)\<rparr>"

text \<open>
  Modelled from the spec: \<open>NoteRecord.new\<close>, \<open>NoteLineRecord.new\<close>, \<open>MeasureRecord.new\<close>,
  \<open>LaneRecord.new\<close>, \<open>LanePointRecord.new\<close> and \<open>OtherObjectRecord.createInstance\<close>
  (modules \<open>Note\<close>, \<open>NoteLine\<close>, \<open>Measure\<close>, \<open>Lane\<close>, \<open>LanePoint\<close>,
  \<open>OtherObject\<close>) make the record of an entity from its serialised data; here each is
  the allocation of a new object with the fields of the data.  \<open>allocate k xs h\<close> is the
  store \<open>h\<close> with the values \<open>xs\<close> at the references \<open>k, k + 1, ...\<close>.
\<close>

definition allocate :: "ref \<Rightarrow> 'a list \<Rightarrow> (ref \<Rightarrow> 'a) \<Rightarrow> (ref \<Rightarrow> 'a)" where
  "allocate k xs h = (\<lambda>r. if k \<le> r \<and> r < k + length xs then xs ! (r - k) else h r)"

definition toMutable :: "'p Env \<Rightarrow> 'p Timeline \<Rightarrow> TimelineData \<Rightarrow> 'p Timeline" where
  "toMutable E t d =
     (let k0 = nextRef t;
          k1 = k0 + length (notesD d);
          k2 = k1 + length (noteLinesD d);
          k3 = k2 + length (measuresD d);
          k4 = k3 + length (lanesD d);
          k5 = k4 + length (lanePointsD d);
          k6 = k5 + length (otherObjectsD d);
          t1 = t\<lparr>notes := [k0..<k1], noteObj := allocate k0 (notesD d) (noteObj t),
                 noteLines := [k1..<k2], noteLineObj := allocate k1 (noteLinesD d) (noteLineObj t),
                 measures := [k2..<k3], measureObj := allocate k2 (measuresD d) (measureObj t),
                 lanes := [k3..<k4], laneObj := allocate k3 (lanesD d) (laneObj t),
                 lanePoints := [k4..<k5],
                 lanePointObj := allocate k4 (lanePointsD d) (lanePointObj t),
                 otherObjects := [k5..<k6],
                 otherObj := allocate k5 (otherObjectsD d) (otherObj t),
                 nextRef := k6\<rparr>
      in updateLaneMap E (updateLanePointMap (updateNoteMap E t1)))"

section \<open>History\<close>

text \<open>\<open>histories.slice(0, e)\<close>: a negative end counts from the end of the array.\<close>

definition slice0 :: "int \<Rightarrow> 'a list \<Rightarrow> 'a list" where
  "slice0 e xs = take (if e < 0 then nat (int (length xs) + e) else nat e) xs"

definition initialSave :: "'p Env \<Rightarrow> 'p Timeline \<Rightarrow> 'p Timeline" where
  "initialSave E t =
     (let a = defaultTimelineData; b = toJS t
      in t\<lparr>histories := histories t @
               [\<lparr>h_undo = jsonpatch_compare E a b, h_redo = jsonpatch_compare E b a\<rparr>],
           historyIndex := historyIndex t + 1,
           prevData := Some (toJS t)\<rparr>)"

text \<open>
  \<open>save\<close>.  Writing \<open>this.chart!.canUndo\<close> throws without a chart; the patch library
  applied to \<open>null\<close> (no previous data) is an error of the model.  The call of
  \<open>updateInspector\<close> has no effect on the timeline.
\<close>

definition save :: "'p Env \<Rightarrow> 'p Timeline \<Rightarrow> error + 'p Timeline" where
  "save E t =
     (let t1 = t\<lparr>noteObj := fold (\<lambda>note h. h(note := note_normalize E (h note))) (notes t)
                               (noteObj t)\<rparr>
      in if histories t1 = [] then Inr (initialSave E t1)
         else
           (case prevData t1 of
              None \<Rightarrow> Inl PatchError
            | Some a \<Rightarrow>
               (let b = toJS t1;
                    t2 = t1\<lparr>histories := slice0 (historyIndex t1) (histories t1) @
                               [\<lparr>h_undo = jsonpatch_compare E a b,
                                 h_redo = jsonpatch_compare E b a\<rparr>],
                            historyIndex := historyIndex t1 + 1\<rparr>
                in case chart t2 of
                     None \<Rightarrow> Inl TypeError
                   | Some c \<Rightarrow>
                       Inr (t2\<lparr>chart := Some (c\<lparr>canUndo := True, canRedo := False\<rparr>),
                               prevData := Some (toJS t2)\<rparr>))))"

text \<open>\<open>histories[i]\<close>; reading a field of the \<open>undefined\<close> out of range throws.\<close>

definition historyAt :: "'p History list \<Rightarrow> int \<Rightarrow> error + 'p History" where
  "historyAt hs i = (if 0 \<le> i \<and> i < int (length hs) then Inr (hs ! nat i) else Inl TypeError)"

definition undo :: "'p Env \<Rightarrow> 'p Timeline \<Rightarrow> error + 'p Timeline" where
  "undo E t =
     (case chart t of
        None \<Rightarrow> Inr t
      | Some c \<Rightarrow>
         if \<not> canUndo c then Inr t
         else
           (let t1 = t\<lparr>historyIndex := historyIndex t - 1\<rparr>
            in case historyAt (histories t1) (historyIndex t1) of
                 Inl e \<Rightarrow> Inl e
               | Inr h \<Rightarrow>
                  (case prevData t1 of
                     None \<Rightarrow> Inl PatchError
                   | Some a \<Rightarrow>
                      (case jsonpatch_applyPatch E a (h_redo h) of
                         Inl e \<Rightarrow> Inl e
                       | Inr d \<Rightarrow>
                          (let t2 = toMutable E (t1\<lparr>prevData := Some d\<rparr>) d
                           in Inr (t2\<lparr>chart := Some (c\<lparr>canRedo := True,
                                                        canUndo := (1 < historyIndex t2)\<rparr>),
                                      previouslyCreatedNote := None\<rparr>))))))"

definition redo :: "'p Env \<Rightarrow> 'p Timeline \<Rightarrow> error + 'p Timeline" where
  "redo E t =
     (case chart t of
        None \<Rightarrow> Inr t
      | Some c \<Rightarrow>
         if \<not> canRedo c then Inr t
         else
           (let t1 = t\<lparr>historyIndex := historyIndex t + 1\<rparr>
            in case historyAt (histories t1) (historyIndex t1 - 1) of
                 Inl e \<Rightarrow> Inl e
               | Inr h \<Rightarrow>
                  (case prevData t1 of
                     None \<Rightarrow> Inl PatchError
                   | Some a \<Rightarrow>
                      (case jsonpatch_applyPatch E a (h_undo h) of
                         Inl e \<Rightarrow> Inl e
                       | Inr d \<Rightarrow>
                          (let t2 = toMutable E (t1\<lparr>prevData := Some d\<rparr>) d
                           in Inr (t2\<lparr>chart := Some (c\<lparr>canUndo := True,
                                         canRedo := (historyIndex t2 < int (length (histories t2)))\<rparr>),
                                      previouslyCreatedNote := None\<rparr>))))))"

text \<open>\<open>TimelineRecord.new(chart, data)\<close>: construct, attach the chart, reload, save.\<close>

definition TimelineRecord_new :: "'p Env \<Rightarrow> Chart \<Rightarrow> TimelineData \<Rightarrow> error + 'p Timeline" where
  "TimelineRecord_new E c d = save E (toMutable E (TimelineRecord\<lparr>chart := Some c\<rparr>) d)"

text \<open>
  An edit is any change of the timeline that leaves the history and the chart's flags
  alone: only \<open>save\<close>, \<open>undo\<close> and \<open>redo\<close> write those.
\<close>

definition applyEdit :: "('p Timeline \<Rightarrow> 'p Timeline) \<Rightarrow> 'p Timeline \<Rightarrow> 'p Timeline" where
  "applyEdit f t =
     (f t)\<lparr>histories := histories t, historyIndex := historyIndex t, prevData := prevData t,
           chart := chart t\<rparr>"

fun editSaves :: "'p Env \<Rightarrow> ('p Timeline \<Rightarrow> 'p Timeline) list \<Rightarrow> 'p Timeline \<Rightarrow> error + 'p Timeline" where
  "editSaves E [] t = Inr t"
| "editSaves E (f # fs) t =
     (case save E (applyEdit f t) of Inl e \<Rightarrow> Inl e | Inr t' \<Rightarrow> editSaves E fs t')"

fun undoTimes :: "'p Env \<Rightarrow> nat \<Rightarrow> 'p Timeline \<Rightarrow> error + 'p Timeline" where
  "undoTimes E 0 t = Inr t"
| "undoTimes E (Suc n) t = (case undo E t of Inl e \<Rightarrow> Inl e | Inr t' \<Rightarrow> undoTimes E n t')"

text \<open>
  What the theorems about the history assume of the patch library: applying the patch
  \<open>compare(a, b)\<close> to \<open>a\<close> gives \<open>b\<close>.  And what makes the times of a timeline as
  created up to date: normalising a note whose time is up to date leaves its time up to
  date.
\<close>

definition patch_roundtrip :: "'p Env \<Rightarrow> bool" where
  "patch_roundtrip E \<longleftrightarrow>
     (\<forall>a b. jsonpatch_applyPatch E a (jsonpatch_compare E a b) = Inr b)"

definition normalize_keeps_time :: "'p Env \<Rightarrow> bool" where
  "normalize_keeps_time E \<longleftrightarrow>
     (\<forall>tc n. setTime E tc (note_normalize E (setTime E tc n)) = note_normalize E (setTime E tc n))"

text \<open>The data of a reload: the times of the notes recomputed from the data itself.\<close>

definition retime :: "'p Env \<Rightarrow> TimelineData \<Rightarrow> TimelineData" where
  "retime E d =
     d\<lparr>notesD := map (setTime E \<lparr>tcObjects = sortMeasure (otherObjectsD d),
                                   tcMeasures = measuresD d\<rparr>) (notesD d)\<rparr>"

text \<open>
  The history is a chain over the snapshots \<open>ds\<close>: entry \<open>i\<close> holds the patches between
  \<open>ds ! i\<close> and \<open>ds ! (i + 1)\<close>, and the previous data is the snapshot under the cursor
  \<open>historyIndex\<close>.
\<close>

definition chain :: "'p Env \<Rightarrow> 'p Timeline \<Rightarrow> TimelineData list \<Rightarrow> bool" where
  "chain E t ds \<longleftrightarrow>
     length ds = Suc (length (histories t)) \<and>
     (\<forall>i < length (histories t). histories t ! i =
        \<lparr>h_undo = jsonpatch_compare E (ds ! i) (ds ! Suc i),
         h_redo = jsonpatch_compare E (ds ! Suc i) (ds ! i)\<rparr>) \<and>
     histories t \<noteq> [] \<and>
     0 \<le> historyIndex t \<and> historyIndex t \<le> int (length (histories t)) \<and>
     prevData t = Some (ds ! nat (historyIndex t)) \<and> chart t \<noteq> None"


text \<open>An edit: create a note line object and add it to the timeline.\<close>

definition newNoteLine :: "NoteLine \<Rightarrow> 'p Timeline \<Rightarrow> 'p Timeline" where
  "newNoteLine nl t =
     addNoteLine (t\<lparr>noteLineObj := (noteLineObj t)(nextRef t := nl),
                    nextRef := Suc (nextRef t)\<rparr>) (nextRef t)"

definition exampleData :: TimelineData where
  "exampleData = defaultTimelineData
     \<lparr>notesD := [defaultNote\<lparr>nguid := ''n'', measureIndex := 1\<rparr>],
      otherObjectsD := [\<lparr>otype = 0, oguid = ''bpm'', oMeasureIndex = 0,
                         oMeasurePosition = \<lparr>numerator = 0, denominator = 1\<rparr>,
                         ovalue = 120, olayer = ''layer1''\<rparr>]\<rparr>"

definition lineA :: NoteLine where
  "lineA = \<lparr>nlguid = ''lineA'', head = ''n'', tail = ''n'', innerNotes = []\<rparr>"

definition lineB :: NoteLine where
  "lineB = \<lparr>nlguid = ''lineB'', head = ''n'', tail = ''n'', innerNotes = []\<rparr>"






text \<open>
  A timeline is created for a chart that comes with \<open>canUndo\<close> on, and the save of
  \<open>TimelineRecord.new\<close> is undone.
\<close>

definition exampleUndone :: "error + (TimelineData \<times> TimelineData) Timeline" where
  "exampleUndone =
     (case TimelineRecord_new exampleEnv (exampleChart\<lparr>canUndo := True\<rparr>) exampleData of
        Inl e \<Rightarrow> Inl e
      | Inr t0 \<Rightarrow> undo exampleEnv t0)"

text \<open>
  The states the editor reaches from a timeline created by \<open>TimelineRecord.new\<close> for the
  chart \<open>c0\<close>: edits, \<open>save\<close>, \<open>undo\<close> and \<open>redo\<close> in any order.
\<close>

inductive reachable :: "'p Env \<Rightarrow> Chart \<Rightarrow> 'p Timeline \<Rightarrow> bool"
  for E :: "'p Env" and c0 :: Chart where
  created: "TimelineRecord_new E c0 d = Inr t \<Longrightarrow> reachable E c0 t"
| edited: "reachable E c0 t \<Longrightarrow> reachable E c0 (applyEdit f t)"
| saved: "reachable E c0 t \<Longrightarrow> save E t = Inr t' \<Longrightarrow> reachable E c0 t'"
| undone: "reachable E c0 t \<Longrightarrow> undo E t = Inr t' \<Longrightarrow> reachable E c0 t'"
| redone: "reachable E c0 t \<Longrightarrow> redo E t = Inr t' \<Longrightarrow> reachable E c0 t'"

section \<open>optimizeNoteLine and optimizeNote\<close>

text \<open>
  One note line of \<open>optimizeNoteLine\<close>.  A guid missing from \<open>noteMap\<close> gives
  \<open>undefined\<close>, and reading its \<open>guid\<close> throws.  The comparator \<open>sortMeasure\<close> orders
  by chart position (see above), and the stable sort of the two notes keeps their order
  unless the first is later than the second.
\<close>

definition orderNoteLine :: "'p Timeline \<Rightarrow> ref \<Rightarrow> error + 'p Timeline" where
  "orderNoteLine t nl =
     (case noteMap t (head (noteLineObj t nl)) of
        None \<Rightarrow> Inl TypeError
      | Some a \<Rightarrow>
         (case noteMap t (tail (noteLineObj t nl)) of
            None \<Rightarrow> Inl TypeError
          | Some b \<Rightarrow>
             (let (headNote, tailNote) = (if notePos (noteObj t a) \<le> notePos (noteObj t b)
                             then (a, b) else (b, a))
              in Inr (t\<lparr>noteLineObj := (noteLineObj t)
                         (nl := (noteLineObj t nl)\<lparr>head := nguid (noteObj t headNote),
                                                     tail := nguid (noteObj t tailNote)\<rparr>)\<rparr>))))"

fun optimizeNoteLines :: "'p Timeline \<Rightarrow> ref list \<Rightarrow> error + 'p Timeline" where
  "optimizeNoteLines t [] = Inr t"
| "optimizeNoteLines t (nl # nls) =
     (case orderNoteLine t nl of Inl e \<Rightarrow> Inl e | Inr t' \<Rightarrow> optimizeNoteLines t' nls)"

definition optimizeNoteLine :: "'p Timeline \<Rightarrow> error + 'p Timeline" where
  "optimizeNoteLine t = optimizeNoteLines t (noteLines t)"

text \<open>
  Modelled from the spec: \<open>Note.getMeasurePosition\<close> (module \<open>Note\<close>) is the chart
  position of the note, its measure index plus the offset in the measure.
\<close>

definition getMeasurePosition :: "Note \<Rightarrow> real" where
  "getMeasurePosition n = notePos n"

text \<open>
  \<open>optimizeNote\<close>.  Each \<open>for ... of\<close> loop runs over the array its collection held when
  the loop started: \<open>removeNote\<close> replaces \<open>this.notes\<close>, \<open>this.noteLines\<close> and the
  \<open>innerNotes\<close> of a line by new arrays, which the running loops do not see.  The set
  \<open>innerNotes\<close> of the function is the list \<open>inner\<close>.  Calling a method of a note that
  \<open>noteMap\<close> does not have throws.
\<close>

fun pruneInner ::
  "'p Env \<Rightarrow> real \<Rightarrow> real \<Rightarrow> string list \<Rightarrow> 'p Timeline \<times> string list \<Rightarrow>
   error + 'p Timeline \<times> string list" where
  "pruneInner E headPos tailPos [] s = Inr s"
| "pruneInner E headPos tailPos (g # gs) (t, inner) =
     (case noteMap t g of
        None \<Rightarrow> Inl TypeError
      | Some note \<Rightarrow>
         (let pos = getMeasurePosition (noteObj t note)
          in if pos < headPos \<or> tailPos < pos
             then pruneInner E headPos tailPos gs (removeNote E t note False, inner)
             else pruneInner E headPos tailPos gs (t, g # inner)))"

fun pruneLines ::
  "'p Env \<Rightarrow> ref list \<Rightarrow> 'p Timeline \<times> string list \<Rightarrow> error + 'p Timeline \<times> string list" where
  "pruneLines E [] s = Inr s"
| "pruneLines E (nl # nls) (t, inner) =
     (case noteMap t (head (noteLineObj t nl)) of
        None \<Rightarrow> Inl TypeError
      | Some headNote \<Rightarrow>
         (case noteMap t (tail (noteLineObj t nl)) of
            None \<Rightarrow> Inl TypeError
          | Some tailNote \<Rightarrow>
             (case pruneInner E (getMeasurePosition (noteObj t headNote)) (getMeasurePosition (noteObj t tailNote))
                     (innerNotes (noteLineObj t nl)) (t, inner) of
                Inl e \<Rightarrow> Inl e
              | Inr s \<Rightarrow> pruneLines E nls s)))"

fun pruneNotes :: "'p Env \<Rightarrow> ref list \<Rightarrow> string list \<Rightarrow> 'p Timeline \<Rightarrow> 'p Timeline" where
  "pruneNotes E [] inner t = t"
| "pruneNotes E (note # ns) inner t =
     pruneNotes E ns inner
       (if horizontalSize (noteObj t note) = 0 \<and> nguid (noteObj t note) \<notin> set inner
        then removeNote E t note False else t)"

definition optimizeNote :: "'p Env \<Rightarrow> 'p Timeline \<Rightarrow> error + 'p Timeline" where
  "optimizeNote E t =
     (case pruneLines E (noteLines t) (t, []) of
        Inl e \<Rightarrow> Inl e
      | Inr (t1, inner) \<Rightarrow> Inr (updateNoteMap E (pruneNotes E (notes t1) inner t1)))"

definition optimize :: "'p Env \<Rightarrow> 'p Timeline \<Rightarrow> error + 'p Timeline" where
  "optimize E t =
     (case optimizeLane E t of
        Inl e \<Rightarrow> Inl e
      | Inr t1 \<Rightarrow>
         (case optimizeNoteLine t1 of
            Inl e \<Rightarrow> Inl e
          | Inr t2 \<Rightarrow> optimizeNote E t2))"

section \<open>The mutating operations and the derived indices\<close>

text \<open>
  The public mutating operations; the flag of \<open>AddNote\<close> and \<open>RemoveNote\<close> is the
  argument \<open>updateNoteMap\<close> (true when left out).  The string of \<open>RemoveOtherObject\<close>
  is the guid that \<open>guid()\<close> returns if a marker is synthesised.
\<close>

datatype operation =
    AddNote ref bool
  | RemoveNote ref bool
  | AddNoteLine ref
  | RemoveNoteLine ref
  | AddOtherObject ref
  | RemoveOtherObject ref string
  | AddLane ref
  | SetLanes "ref list"
  | AddLanePoint ref
  | Optimize
  | Undo
  | Redo

fun perform :: "'p Env \<Rightarrow> operation \<Rightarrow> 'p Timeline \<Rightarrow> error + 'p Timeline" where
  "perform E (AddNote n updMap) t = Inr (addNote E t n updMap)"
| "perform E (RemoveNote n updMap) t = Inr (removeNote E t n updMap)"
| "perform E (AddNoteLine nl) t = Inr (addNoteLine t nl)"
| "perform E (RemoveNoteLine nl) t = Inr (removeNoteLine t nl)"
| "perform E (AddOtherObject ob) t = Inr (addOtherObject E t ob)"
| "perform E (RemoveOtherObject ob g) t = removeOtherObject E t ob g"
| "perform E (AddLane l) t = Inr (addLane E t l)"
| "perform E (SetLanes ls) t = Inr (setLanes E t ls)"
| "perform E (AddLanePoint lp) t = Inr (addLanePoint t lp)"
| "perform E Optimize t = optimize E t"
| "perform E Undo t = undo E t"
| "perform E Redo t = redo E t"

text \<open>What \<open>updateNoteMap\<close>, \<open>updateLanePointMap\<close>, \<open>updateLaneMap\<close> and
  \<open>calculateTime\<close> would build from the collections as they are.\<close>

definition noteMapOf :: "'p Timeline \<Rightarrow> (string \<rightharpoonup> ref)" where
  "noteMapOf t = fold (\<lambda>note m. m(nguid (noteObj t note) \<mapsto> note)) (notes t) Map.empty"

definition lanePointMapOf :: "'p Timeline \<Rightarrow> (string \<rightharpoonup> ref)" where
  "lanePointMapOf t =
     fold (\<lambda>lp m. m(lpguid (lanePointObj t lp) \<mapsto> lp)) (lanePoints t) Map.empty"

definition laneMapOf :: "'p Timeline \<Rightarrow> (string \<rightharpoonup> ref)" where
  "laneMapOf t = fold (\<lambda>l m. m(lguid (laneObj t l) \<mapsto> l)) (lanes t) Map.empty"

definition timeCalculatorOf :: "'p Timeline \<Rightarrow> TimeCalculator" where
  "timeCalculatorOf t =
     \<lparr>tcObjects = sortMeasure (map (otherObj t) (otherObjects t)),
      tcMeasures = map (measureObj t) (measures t)\<rparr>"

definition mapsConsistent :: "'p Timeline \<Rightarrow> bool" where
  "mapsConsistent t \<longleftrightarrow>
     noteMap t = noteMapOf t \<and> lanePointMap t = lanePointMapOf t \<and> laneMap t = laneMapOf t"

definition timeConsistent :: "'p Timeline \<Rightarrow> bool" where
  "timeConsistent t \<longleftrightarrow> timeCalculator t = timeCalculatorOf t"

text \<open>
  An index paired with what a rebuild from the collections as they are would give it; the
  index is consistent when the two are equal.
\<close>

definition noteIndex :: "'p Timeline \<Rightarrow> (string \<rightharpoonup> ref) \<times> (string \<rightharpoonup> ref)" where
  "noteIndex t = (noteMap t, noteMapOf t)"

definition lanePointIndex :: "'p Timeline \<Rightarrow> (string \<rightharpoonup> ref) \<times> (string \<rightharpoonup> ref)" where
  "lanePointIndex t = (lanePointMap t, lanePointMapOf t)"

definition laneIndex :: "'p Timeline \<Rightarrow> (string \<rightharpoonup> ref) \<times> (string \<rightharpoonup> ref)" where
  "laneIndex t = (laneMap t, laneMapOf t)"

definition timeIndex :: "'p Timeline \<Rightarrow> TimeCalculator \<times> TimeCalculator" where
  "timeIndex t = (timeCalculator t, timeCalculatorOf t)"

text \<open>
  What an operation does about an index, read off the code.  \<open>Rebuilt\<close>: it ends with the
  update of that index (\<open>updateNoteMap\<close>, \<open>updateLanePointMap\<close>, \<open>updateLaneMap\<close>,
  \<open>calculateTime\<close>, the last also at the end of the first and the third; the reload of
  \<open>undo\<close> and \<open>redo\<close> runs all of them), so the index is consistent afterwards.
  \<open>Untouched\<close>: it writes neither the index nor what the index is built from, so the index
  is as consistent as it was.  \<open>Skipped\<close>: it changes the collection and skips the update,
  so the index is the one from before the call.
\<close>

datatype effect = Rebuilt | Untouched | Skipped

definition indexAfter :: "effect \<Rightarrow> 'a \<times> 'a \<Rightarrow> 'a \<times> 'a \<Rightarrow> bool" where
  "indexAfter e before after =
     (case e of
        Rebuilt \<Rightarrow> fst after = snd after
      | Untouched \<Rightarrow> after = before
      | Skipped \<Rightarrow> fst after = fst before)"

record effects =
  onNoteMap :: effect
  onLanePointMap :: effect
  onLaneMap :: effect
  onTimeCalculator :: effect

definition allOf :: "effect \<Rightarrow> effects" where
  "allOf e = \<lparr>onNoteMap = e, onLanePointMap = e, onLaneMap = e, onTimeCalculator = e\<rparr>"

text \<open>\<open>optimizeLane\<close> calls \<open>setLanes\<close> only when its merge phase finds two lanes to merge.\<close>

definition merges :: "'p Timeline \<Rightarrow> bool" where
  "merges t =
     (case sortLanes t (lanes t) of
        Inl e \<Rightarrow> False
      | Inr t1 \<Rightarrow> firstMerge t1 (lanes t1) \<noteq> None)"

fun effectsOf :: "'p Timeline \<Rightarrow> operation \<Rightarrow> effects" where
  "effectsOf t (AddNote n updMap) =
     (allOf Untouched)\<lparr>onNoteMap := (if updMap then Rebuilt else Skipped),
                       onTimeCalculator := (if updMap then Rebuilt else Untouched)\<rparr>"
| "effectsOf t (RemoveNote n updMap) =
     (allOf Untouched)\<lparr>onNoteMap := (if updMap then Rebuilt else Skipped),
                       onTimeCalculator := (if updMap then Rebuilt else Untouched)\<rparr>"
| "effectsOf t (AddNoteLine nl) = allOf Untouched"
| "effectsOf t (RemoveNoteLine nl) = allOf Untouched"
| "effectsOf t (AddOtherObject ob) =
     (allOf Untouched)\<lparr>onTimeCalculator := (if isBPM (otherObj t ob) then Rebuilt else Skipped)\<rparr>"
| "effectsOf t (RemoveOtherObject ob g) =
     (allOf Untouched)\<lparr>onTimeCalculator := (if isBPM (otherObj t ob) then Rebuilt else Skipped)\<rparr>"
| "effectsOf t (AddLane l) = (allOf Untouched)\<lparr>onLaneMap := Rebuilt, onTimeCalculator := Rebuilt\<rparr>"
| "effectsOf t (SetLanes ls) = (allOf Untouched)\<lparr>onLaneMap := Rebuilt, onTimeCalculator := Rebuilt\<rparr>"
| "effectsOf t (AddLanePoint lp) = (allOf Untouched)\<lparr>onLanePointMap := Rebuilt\<rparr>"
| "effectsOf t Optimize =
     \<lparr>onNoteMap = Rebuilt, onLanePointMap = Untouched,
      onLaneMap = (if merges t then Rebuilt else Untouched), onTimeCalculator = Rebuilt\<rparr>"
| "effectsOf t Undo =
     allOf (case chart t of None \<Rightarrow> Untouched
            | Some c \<Rightarrow> if canUndo c then Rebuilt else Untouched)"
| "effectsOf t Redo =
     allOf (case chart t of None \<Rightarrow> Untouched
            | Some c \<Rightarrow> if canRedo c then Rebuilt else Untouched)"

text \<open>A timeline with one BPM marker, its times calculated, and a speed marker (object 2)
  created but not yet added.\<close>

definition exampleMarkers :: "(TimelineData \<times> TimelineData) Timeline" where
  "exampleMarkers = calculateTime exampleEnv (exampleBpm\<lparr>otherObjects := [0]\<rparr>)"

text \<open>The same timeline with a note (object 3) created but not yet added.\<close>

definition exampleNoteMade :: "(TimelineData \<times> TimelineData) Timeline" where
  "exampleNoteMade =
     exampleMarkers\<lparr>noteObj := (noteObj exampleMarkers)(3 := defaultNote\<lparr>nguid := ''n''\<rparr>),
                    nextRef := 4\<rparr>"

text \<open>An edit: create an object from its data and add it to the timeline.\<close>

definition newOtherObject :: "'p Env \<Rightarrow> OtherObject \<Rightarrow> 'p Timeline \<Rightarrow> 'p Timeline" where
  "newOtherObject E d t = (let (r, t1) = createInstance d t in addOtherObject E t1 r)"

definition exampleSpeed :: OtherObject where
  "exampleSpeed = \<lparr>otype = 1, oguid = ''speed'', oMeasureIndex = 1,
     oMeasurePosition = \<lparr>numerator = 0, denominator = 1\<rparr>, ovalue = 2, olayer = ''layer1''\<rparr>"

section \<open>Properties\<close>

subsection \<open>Frame lemmas\<close>

lemma calculateTime_frame [simp]:
  "notes (calculateTime E t) = notes t"
  "noteLines (calculateTime E t) = noteLines t"
  "measures (calculateTime E t) = measures t"
  "lanes (calculateTime E t) = lanes t"
  "lanePoints (calculateTime E t) = lanePoints t"
  "otherObjects (calculateTime E t) = otherObjects t"
  "noteLineObj (calculateTime E t) = noteLineObj t"
  "measureObj (calculateTime E t) = measureObj t"
  "laneObj (calculateTime E t) = laneObj t"
  "lanePointObj (calculateTime E t) = lanePointObj t"
  "otherObj (calculateTime E t) = otherObj t"
  "nextRef (calculateTime E t) = nextRef t"
  "noteMap (calculateTime E t) = noteMap t"
  "lanePointMap (calculateTime E t) = lanePointMap t"
  "laneMap (calculateTime E t) = laneMap t"
  "histories (calculateTime E t) = histories t"
  "historyIndex (calculateTime E t) = historyIndex t"
  "prevData (calculateTime E t) = prevData t"
  "chart (calculateTime E t) = chart t"
  "previouslyCreatedNote (calculateTime E t) = previouslyCreatedNote t"
  by (simp_all add: calculateTime_def Let_def)

lemma updateNoteMap_frame [simp]:
  "notes (updateNoteMap E t) = notes t"
  "noteLines (updateNoteMap E t) = noteLines t"
  "measures (updateNoteMap E t) = measures t"
  "lanes (updateNoteMap E t) = lanes t"
  "lanePoints (updateNoteMap E t) = lanePoints t"
  "otherObjects (updateNoteMap E t) = otherObjects t"
  "noteLineObj (updateNoteMap E t) = noteLineObj t"
  "measureObj (updateNoteMap E t) = measureObj t"
  "laneObj (updateNoteMap E t) = laneObj t"
  "lanePointObj (updateNoteMap E t) = lanePointObj t"
  "otherObj (updateNoteMap E t) = otherObj t"
  "nextRef (updateNoteMap E t) = nextRef t"
  "lanePointMap (updateNoteMap E t) = lanePointMap t"
  "laneMap (updateNoteMap E t) = laneMap t"
  "histories (updateNoteMap E t) = histories t"
  "historyIndex (updateNoteMap E t) = historyIndex t"
  "prevData (updateNoteMap E t) = prevData t"
  "chart (updateNoteMap E t) = chart t"
  "previouslyCreatedNote (updateNoteMap E t) = previouslyCreatedNote t"
  by (simp_all add: updateNoteMap_def)

lemma fold_removeNoteLine_noteLines:
  "noteLines (fold (\<lambda>nl s. removeNoteLine s nl) rs t) =
     filter (\<lambda>nl. nl \<notin> set rs) (noteLines t)"
  by (induction rs arbitrary: t) (auto simp: removeNoteLine_def intro: filter_cong)

lemma fold_removeNoteLine_noteLineObj:
  "noteLineObj (fold (\<lambda>nl s. removeNoteLine s nl) rs t) = noteLineObj t"
  by (induction rs arbitrary: t) (auto simp: removeNoteLine_def)

lemma stripInner_idem [simp]: "stripInner g (stripInner g nl) = stripInner g nl"
  by (simp add: stripInner_def)

lemma fold_stripInner:
  "fold (\<lambda>nl h. h(nl := stripInner g (h nl))) rs h r =
     (if r \<in> set rs then stripInner g (h r) else h r)"
  by (induction rs arbitrary: h) auto

subsection \<open>Removing a note\<close>

lemma removeNote_noteLines:
  "noteLines (removeNote E t note u) =
     filter (\<lambda>nl. \<not> (head (noteLineObj t nl) = nguid (noteObj t note) \<or>
                        tail (noteLineObj t nl) = nguid (noteObj t note))) (noteLines t)"
  by (auto simp: removeNote_def Let_def fold_removeNoteLine_noteLines
      split: option.splits intro: filter_cong)

lemma removeNote_noteLineObj:
  "noteLineObj (removeNote E t note u) nl =
     (if nl \<in> set (noteLines (removeNote E t note u))
      then stripInner (nguid (noteObj t note)) (noteLineObj t nl) else noteLineObj t nl)"
  by (auto simp: removeNote_def Let_def fold_removeNoteLine_noteLines
      fold_removeNoteLine_noteLineObj fold_stripInner
      split: option.splits)

text \<open>
  C3.  After \<open>removeNote(n)\<close> no note line of the collection has the guid of \<open>n\<close>
  as its head, as its tail or among its inner notes.
\<close>

theorem removeNote_no_reference:
  "\<forall>nl \<in> set (noteLines (removeNote E t note u)).
     head (noteLineObj (removeNote E t note u) nl) \<noteq> nguid (noteObj t note) \<and>
     tail (noteLineObj (removeNote E t note u) nl) \<noteq> nguid (noteObj t note) \<and>
     nguid (noteObj t note) \<notin> set (innerNotes (noteLineObj (removeNote E t note u) nl))"
proof
  fix nl assume nl: "nl \<in> set (noteLines (removeNote E t note u))"
  let ?g = "nguid (noteObj t note)"
  have obj: "noteLineObj (removeNote E t note u) nl = stripInner ?g (noteLineObj t nl)"
    using nl by (simp add: removeNote_noteLineObj)
  have ht: "head (noteLineObj t nl) \<noteq> ?g \<and> tail (noteLineObj t nl) \<noteq> ?g"
    using nl by (simp add: removeNote_noteLines)
  show "head (noteLineObj (removeNote E t note u) nl) \<noteq> ?g \<and>
     tail (noteLineObj (removeNote E t note u) nl) \<noteq> ?g \<and>
     ?g \<notin> set (innerNotes (noteLineObj (removeNote E t note u) nl))"
    using ht by (simp add: obj stripInner_def)
qed

lemma exampleLines_removed:
  "noteLines (removeNote exampleEnv exampleLines 2 True) = [0]"
  by (simp add: removeNote_noteLines exampleLines_def TimelineRecord_def defaultNote_def)

theorem removeNote_no_reference_witness:
  "noteLines (removeNote exampleEnv exampleLines 2 True) = [0] \<and>
   nguid (noteObj exampleLines 2) = ''c'' \<and>
   head (noteLineObj (removeNote exampleEnv exampleLines 2 True) 0) \<noteq> ''c'' \<and>
   tail (noteLineObj (removeNote exampleEnv exampleLines 2 True) 0) \<noteq> ''c'' \<and>
   ''c'' \<notin> set (innerNotes (noteLineObj (removeNote exampleEnv exampleLines 2 True) 0))"
proof -
  have g: "nguid (noteObj exampleLines 2) = ''c''"
    by (simp add: exampleLines_def TimelineRecord_def defaultNote_def)
  show ?thesis
    using removeNote_no_reference [of exampleEnv exampleLines 2 True]
    by (simp add: exampleLines_removed g)
qed

subsection \<open>BPM markers\<close>

lemma bpmChanges_calculateTime [simp]: "bpmChanges (calculateTime E t) = bpmChanges t"
  by (simp add: bpmChanges_def)

lemma removeOtherObject_last:
  assumes r: "removeOtherObject E t object g = Inr t'"
    and alloc: "\<forall>ob \<in> set (otherObjects t). ob < nextRef t"
    and bpm: "isBPM (otherObj t object)"
    and only: "\<forall>ob \<in> set (otherObjects t). isBPM (otherObj t ob) \<longrightarrow> ob = object"
  shows "bpmChanges t' = [nextRef t] \<and>
     ovalue (otherObj t' (nextRef t)) = 120 \<and> oMeasureIndex (otherObj t' (nextRef t)) = 0 \<and>
     oMeasurePosition (otherObj t' (nextRef t)) = \<lparr>numerator = 0, denominator = 1\<rparr> \<and>
     oguid (otherObj t' (nextRef t)) = g"
proof -
  let ?os = "filter (\<lambda>obj. obj \<noteq> object) (otherObjects t)"
  have none: "\<not> list_ex (\<lambda>ob. isBPM (otherObj t ob)) ?os"
    using only by (auto simp: list_ex_iff)
  have fresh: "nextRef t \<notin> set ?os" using alloc by auto
  have nob: "filter (\<lambda>ob. isBPM (otherObj t ob)) ?os = []"
    using only by (auto simp: filter_empty_conv)
  have nob': "filter (\<lambda>ob. ob \<noteq> nextRef t \<and> isBPM (otherObj t ob)) ?os = []"
    using only by (auto simp: filter_empty_conv)
  from r bpm none obtain c l ls where c: "chart t = Some c" "layers c = l # ls"
    by (auto simp: removeOtherObject_def Let_def split: option.splits list.splits)
  from r bpm none c have t': "t' = calculateTime E (addOtherObject E
      (snd (createInstance \<lparr>otype = 0, oguid = g, oMeasureIndex = 0,
            oMeasurePosition = \<lparr>numerator = 0, denominator = 1\<rparr>,
            ovalue = 120, olayer = l\<rparr>
         (t\<lparr>otherObjects := ?os\<rparr>))) (nextRef t))"
    by (auto simp: removeOtherObject_def Let_def createInstance_def split: prod.splits)
  have "filter (\<lambda>ob. isBPM (((otherObj t)(nextRef t := \<lparr>otype = 0, oguid = g, oMeasureIndex = 0,
            oMeasurePosition = \<lparr>numerator = 0, denominator = 1\<rparr>,
            ovalue = 120, olayer = l\<rparr>)) ob)) ?os = []"
    using only alloc by (auto simp: filter_empty_conv)
  then show ?thesis
    by (simp add: t' addOtherObject_def createInstance_def Let_def isBPM_def bpmChanges_def)
qed

lemma removeOtherObject_keeps_bpm:
  assumes r: "removeOtherObject E t object g = Inr t'"
    and b: "bpmChanges t \<noteq> [] \<or> isBPM (otherObj t object)"
  shows "bpmChanges t' \<noteq> []"
proof (cases "isBPM (otherObj t object)")
  case False
  with r have t': "t' = t\<lparr>otherObjects := filter (\<lambda>obj. obj \<noteq> object) (otherObjects t)\<rparr>"
    by (simp add: removeOtherObject_def Let_def)
  from b False obtain ob where "ob \<in> set (otherObjects t)" "isBPM (otherObj t ob)"
    by (auto simp: bpmChanges_def filter_empty_conv)
  with False show ?thesis by (auto simp: t' bpmChanges_def filter_empty_conv)
next
  case True
  let ?os = "filter (\<lambda>obj. obj \<noteq> object) (otherObjects t)"
  show ?thesis
  proof (cases "list_ex (\<lambda>ob. isBPM (otherObj t ob)) ?os")
    case True
    with r \<open>isBPM (otherObj t object)\<close> have "t' = calculateTime E (t\<lparr>otherObjects := ?os\<rparr>)"
      by (simp add: removeOtherObject_def Let_def)
    with True show ?thesis by (auto simp: bpmChanges_def filter_empty_conv list_ex_iff)
  next
    case False
    with r True obtain c l ls where c: "chart t = Some c" "layers c = l # ls"
      by (auto simp: removeOtherObject_def Let_def split: option.splits list.splits)
    from r True False c have t': "t' = calculateTime E (addOtherObject E
      (snd (createInstance \<lparr>otype = 0, oguid = g, oMeasureIndex = 0,
            oMeasurePosition = \<lparr>numerator = 0, denominator = 1\<rparr>,
            ovalue = 120, olayer = l\<rparr>
         (t\<lparr>otherObjects := ?os\<rparr>))) (nextRef t))"
      by (auto simp: removeOtherObject_def Let_def createInstance_def split: prod.splits)
    show ?thesis
      by (simp add: t' addOtherObject_def createInstance_def Let_def isBPM_def bpmChanges_def)
  qed
qed

lemma removeOtherObject_returns:
  "chart t = Some c \<Longrightarrow> layers c \<noteq> [] \<Longrightarrow> \<exists>t'. removeOtherObject E t object g = Inr t'"
  by (auto simp: removeOtherObject_def Let_def split: option.splits list.splits prod.splits)

lemma addOtherObject_bpm_iff:
  "bpmChanges (addOtherObject E t object) \<noteq> [] \<longleftrightarrow>
   bpmChanges t \<noteq> [] \<or> isBPM (otherObj t object)"
  by (auto simp: addOtherObject_def Let_def bpmChanges_def filter_empty_conv)

lemma removeOtherObject_bpm_iff:
  assumes r: "removeOtherObject E t object g = Inr t'"
  shows "bpmChanges t' \<noteq> [] \<longleftrightarrow> bpmChanges t \<noteq> [] \<or> isBPM (otherObj t object)"
proof (cases "isBPM (otherObj t object)")
  case True
  with removeOtherObject_keeps_bpm [OF r] show ?thesis by simp
next
  case False
  with r have t': "t' = t\<lparr>otherObjects := filter (\<lambda>obj. obj \<noteq> object) (otherObjects t)\<rparr>"
    by (simp add: removeOtherObject_def Let_def)
  from False show ?thesis by (auto simp: t' bpmChanges_def filter_empty_conv)
qed

text \<open>
  C4, amended.  When the only BPM marker of \<open>otherObjects\<close> is removed, the collection
  afterwards holds exactly one BPM marker, of value 120 at measure 0 (position 0/1).  After
  \<open>addOtherObject\<close>, and after \<open>removeOtherObject\<close> has returned, the timeline has a BPM
  marker exactly when it had one before the call or the object of the call is a BPM
  marker.  The references of the collection are allocated ones (below \<open>nextRef\<close>).
\<close>

theorem removeOtherObject_bpm_invariant:
  "(removeOtherObject E t object g = Inr t' \<and>
    (\<forall>ob \<in> set (otherObjects t). ob < nextRef t) \<and>
    object \<in> set (otherObjects t) \<and> isBPM (otherObj t object) \<and>
    (\<forall>ob \<in> set (otherObjects t). isBPM (otherObj t ob) \<longrightarrow> ob = object) \<longrightarrow>
      (\<exists>r. bpmChanges t' = [r] \<and> ovalue (otherObj t' r) = 120 \<and>
           oMeasureIndex (otherObj t' r) = 0 \<and>
           oMeasurePosition (otherObj t' r) = \<lparr>numerator = 0, denominator = 1\<rparr>)) \<and>
   (bpmChanges (addOtherObject E t object) \<noteq> [] \<longleftrightarrow>
      bpmChanges t \<noteq> [] \<or> isBPM (otherObj t object)) \<and>
   (removeOtherObject E t object g = Inr t' \<longrightarrow>
      (bpmChanges t' \<noteq> [] \<longleftrightarrow> bpmChanges t \<noteq> [] \<or> isBPM (otherObj t object)))"
  using removeOtherObject_last [of E t object g t'] addOtherObject_bpm_iff [of E t object]
    removeOtherObject_bpm_iff [of E t object g t']
  by blast

lemma new_empty:
  "TimelineRecord_new exampleEnv exampleChart defaultTimelineData = Inr t \<Longrightarrow>
   otherObjects t = [] \<and> chart t = Some exampleChart"
  by (auto simp: TimelineRecord_new_def save_def toMutable_def Let_def initialSave_def
      defaultTimelineData_def TimelineRecord_def updateNoteMap_def updateLaneMap_def
      updateLanePointMap_def calculateTime_def split: if_splits option.splits)

text \<open>
  C4, as stated, fails in its general part: a timeline created from data without BPM
  marker has none; when a speed marker is added it still has none, and when that marker
  is removed again it has none.
\<close>

theorem add_remove_without_bpm_counterexample:
  "(case TimelineRecord_new exampleEnv exampleChart defaultTimelineData of
      Inl e \<Rightarrow> False
    | Inr t \<Rightarrow>
        bpmChanges t = [] \<and>
        otherObjects (newOtherObject exampleEnv exampleSpeed t) = [nextRef t] \<and>
        bpmChanges (newOtherObject exampleEnv exampleSpeed t) = [] \<and>
        (case removeOtherObject exampleEnv (newOtherObject exampleEnv exampleSpeed t)
                (nextRef t) ''new'' of
           Inl e \<Rightarrow> False
         | Inr t' \<Rightarrow> otherObjects t' = [] \<and> bpmChanges t' = []))"
proof (cases "TimelineRecord_new exampleEnv exampleChart defaultTimelineData")
  case (Inl e)
  then show ?thesis
    by (simp add: TimelineRecord_new_def save_def toMutable_def Let_def
        defaultTimelineData_def TimelineRecord_def updateNoteMap_def updateLaneMap_def
        updateLanePointMap_def calculateTime_def)
next
  case (Inr t)
  from new_empty [OF Inr] have e: "otherObjects t = []" by simp
  have nb: "\<not> isBPM exampleSpeed" by (simp add: exampleSpeed_def isBPM_def)
  have n: "newOtherObject exampleEnv exampleSpeed t =
      t\<lparr>otherObj := (otherObj t)(nextRef t := exampleSpeed), nextRef := Suc (nextRef t),
        otherObjects := [nextRef t]\<rparr>"
    using nb by (simp add: newOtherObject_def createInstance_def addOtherObject_def Let_def e)
  show ?thesis
    unfolding Inr using nb
    by (simp add: n e bpmChanges_def removeOtherObject_def Let_def)
qed

text \<open>
  C10.  Removing an object that is not a BPM marker filters that object out of
  \<open>otherObjects\<close> and changes no other field of the timeline: the other collections,
  the objects in the store (so every note's \<open>time\<close>), the three maps and the
  \<open>timeCalculator\<close> stay as they are; no time is recalculated and no marker inserted.
\<close>

theorem removeOtherObject_not_bpm:
  "\<not> isBPM (otherObj t object) \<Longrightarrow>
   removeOtherObject E t object g =
     Inr (t\<lparr>otherObjects := filter (\<lambda>obj. obj \<noteq> object) (otherObjects t)\<rparr>)"
  by (simp add: removeOtherObject_def Let_def)


lemma exampleBpm_fields:
  "otherObjects exampleBpm = [0, 2]" "nextRef exampleBpm = 3"
  "isBPM (otherObj exampleBpm 0)" "\<not> isBPM (otherObj exampleBpm 2)"
  "chart exampleBpm = Some exampleChart"
  by (simp_all add: exampleBpm_def TimelineRecord_def isBPM_def)

theorem removeOtherObject_bpm_invariant_witness:
  "otherObjects exampleBpm = [0, 2] \<and> nextRef exampleBpm = 3 \<and>
   isBPM (otherObj exampleBpm 0) \<and> \<not> isBPM (otherObj exampleBpm 2) \<and>
   (\<exists>t'. removeOtherObject exampleEnv exampleBpm 0 ''new'' = Inr t' \<and>
      (\<exists>r. bpmChanges t' = [r] \<and> ovalue (otherObj t' r) = 120 \<and>
           oMeasureIndex (otherObj t' r) = 0 \<and>
           oMeasurePosition (otherObj t' r) = \<lparr>numerator = 0, denominator = 1\<rparr>)) \<and>
   bpmChanges exampleBpm \<noteq> [] \<and>
   bpmChanges (addOtherObject exampleEnv exampleBpm 0) \<noteq> []"
proof -
  obtain t' where r: "removeOtherObject exampleEnv exampleBpm 0 ''new'' = Inr t'"
    using removeOtherObject_returns [of exampleBpm exampleChart exampleEnv 0 "''new''"]
    by (auto simp: exampleBpm_fields exampleChart_def)
  have b: "bpmChanges exampleBpm \<noteq> []"
    by (simp add: bpmChanges_def exampleBpm_fields)
  show ?thesis
    using removeOtherObject_bpm_invariant [of exampleEnv exampleBpm 0 "''new''" t'] r b
    by (auto simp add: exampleBpm_fields)
qed

theorem removeOtherObject_not_bpm_witness:
  "\<not> isBPM (otherObj exampleBpm 2) \<and>
   removeOtherObject exampleEnv exampleBpm 2 ''new'' = Inr (exampleBpm\<lparr>otherObjects := [0]\<rparr>)"
  using removeOtherObject_not_bpm [of exampleBpm 2 exampleEnv "''new''"]
  by (simp add: exampleBpm_fields)

subsection \<open>Lane geometry\<close>

lemma getNotePointInfo_uncached:
  "linesCache lane = None \<Longrightarrow> getNotePointInfo linesCache M lane meas horizontal vertical = None"
  by (simp add: getNotePointInfo_def)

lemma renderCall_other:
  "lane \<noteq> rcLane c \<Longrightarrow> renderCall c linesCache lane = linesCache lane"
  by (simp add: renderCall_def render_def split: sum.splits)

lemma fold_renderCall_other:
  "lane \<notin> rcLane ` set cs \<Longrightarrow> fold renderCall cs linesCache lane = linesCache lane"
  by (induction cs arbitrary: linesCache) (auto simp: renderCall_other)

text \<open>
  C9.  A lane for which \<open>render\<close> has not been called since the cache was created has
  no entry in \<open>linesCache\<close>, and \<open>getNotePointInfo\<close> returns null for it whatever the
  measure and the two positions are.
\<close>

theorem getNotePointInfo_never_rendered:
  "lane \<notin> rcLane ` set cs \<Longrightarrow>
   fold renderCall cs Map.empty lane = None \<and>
   getNotePointInfo (fold renderCall cs Map.empty) M lane meas horizontal vertical = None"
  by (simp add: fold_renderCall_other getNotePointInfo_uncached)

lemma getNotePointInfo_y:
  "getNotePointInfo linesCache M lane meas horizontal vertical = Some data \<Longrightarrow>
   vy (point data) = my (M meas) + mheight (M meas) * (1 - to01 vertical)"
  by (auto simp: getNotePointInfo_def Let_def split: option.splits)

lemma getNotePointInfo_next_column:
  assumes "getNotePointInfo linesCache M lane meas \<lparr>numerator = 0, denominator = d\<rparr> vertical = Some r0"
  shows "\<exists>r1. getNotePointInfo linesCache M lane meas \<lparr>numerator = 1, denominator = d\<rparr> vertical = Some r1 \<and>
     vx (point r1) = vx (point r0) + width r0"
  using assms
  by (auto simp: getNotePointInfo_def Let_def to01_def lerp_def algebra_simps split: option.splits)


lemma exampleCache_column0:
  "getNotePointInfo exampleCache exampleMeasures 0 0 \<lparr>numerator = 0, denominator = 4\<rparr>
     \<lparr>numerator = 1, denominator = 2\<rparr> =
   Some \<lparr>point = \<lparr>vx = 10, vy = 50\<rparr>, width = 20\<rparr>"
  by (simp add: getNotePointInfo_def exampleCache_def exampleMeasures_def to01_def lerp_def
      inverseLerp_def)

lemma exampleCache_column1:
  "getNotePointInfo exampleCache exampleMeasures 0 0 \<lparr>numerator = 1, denominator = 4\<rparr>
     \<lparr>numerator = 1, denominator = 2\<rparr> =
   Some \<lparr>point = \<lparr>vx = 30, vy = 50\<rparr>, width = 20\<rparr>"
  by (simp add: getNotePointInfo_def exampleCache_def exampleMeasures_def to01_def lerp_def
      inverseLerp_def)

text \<open>
  C8, as stated, fails: with the result \<open>{point: (10, 50), width: 20}\<close> for horizontal 0/4,
  the result for 1/4 has x = 30, not 10 + 20/4 = 15.
\<close>

theorem getNotePointInfo_quarter_counterexample:
  "getNotePointInfo exampleCache exampleMeasures 0 0 \<lparr>numerator = 0, denominator = 4\<rparr>
     \<lparr>numerator = 1, denominator = 2\<rparr> =
     Some \<lparr>point = \<lparr>vx = 10, vy = 50\<rparr>, width = 20\<rparr> \<and>
   getNotePointInfo exampleCache exampleMeasures 0 0 \<lparr>numerator = 1, denominator = 4\<rparr>
     \<lparr>numerator = 1, denominator = 2\<rparr> =
     Some \<lparr>point = \<lparr>vx = 30, vy = 50\<rparr>, width = 20\<rparr> \<and>
   (30 :: real) \<noteq> 10 + 20 / 4"
  by (simp add: exampleCache_column0 exampleCache_column1)

text \<open>
  C8, amended.  The width \<open>getNotePointInfo\<close> returns is already the width of one
  column: \<open>right - left\<close>, where \<open>right\<close> is the left edge of the next column.  If the
  call with horizontal 0/4 returns \<open>{point: (10, 50), width: 20}\<close>, the call with horizontal
  1/4 and the same lane, measure and vertical position returns x = 30: x is larger by the
  returned width, not by a quarter of it.  (The x of the second call is the \<open>right\<close> of the
  first: \<open>getX(info, 1)\<close> at 0/4 and \<open>getX(info, 0)\<close> at 1/4 both add a quarter of the
  width.  In exact arithmetic the same holds for every denominator and every result of
  the first call, by \<open>getNotePointInfo_next_column\<close>.)
\<close>

theorem getNotePointInfo_column_step:
  "getNotePointInfo linesCache M lane meas \<lparr>numerator = 0, denominator = 4\<rparr> vertical =
     Some \<lparr>point = \<lparr>vx = 10, vy = 50\<rparr>, width = 20\<rparr> \<Longrightarrow>
   \<exists>r1. getNotePointInfo linesCache M lane meas \<lparr>numerator = 1, denominator = 4\<rparr> vertical =
          Some r1 \<and> vx (point r1) = 30"
  using getNotePointInfo_next_column [of linesCache M lane meas 4 vertical
      "\<lparr>point = \<lparr>vx = 10, vy = 50\<rparr>, width = 20\<rparr>"]
  by simp

theorem getNotePointInfo_column_step_witness:
  "getNotePointInfo exampleCache exampleMeasures 0 0 \<lparr>numerator = 0, denominator = 4\<rparr>
     \<lparr>numerator = 1, denominator = 2\<rparr> =
     Some \<lparr>point = \<lparr>vx = 10, vy = 50\<rparr>, width = 20\<rparr> \<and>
   (\<exists>r1. getNotePointInfo exampleCache exampleMeasures 0 0 \<lparr>numerator = 1, denominator = 4\<rparr>
     \<lparr>numerator = 1, denominator = 2\<rparr> = Some r1 \<and> vx (point r1) = 30)"
  using getNotePointInfo_column_step [OF exampleCache_column0]
  by (simp add: exampleCache_column0)

theorem getNotePointInfo_never_rendered_witness:
  "renderCall \<lparr>rcMeasures = exampleMeasures, rcLanes = exampleLanes,
       rcLanePoints = (\<lambda>_. defaultLanePoint), rcLane = 0, rcPointMap = Map.empty,
       rcMeasureList = [0, 2]\<rparr> Map.empty 0 = Some [] \<and>
   getNotePointInfo
     (fold renderCall [\<lparr>rcMeasures = exampleMeasures, rcLanes = exampleLanes,
       rcLanePoints = (\<lambda>_. defaultLanePoint), rcLane = 0, rcPointMap = Map.empty,
       rcMeasureList = [0, 2]\<rparr>] Map.empty) exampleMeasures 2 0
     \<lparr>numerator = 0, denominator = 4\<rparr> \<lparr>numerator = 1, denominator = 2\<rparr> = None"
  using getNotePointInfo_never_rendered [of 2 "[\<lparr>rcMeasures = exampleMeasures, rcLanes = exampleLanes,
       rcLanePoints = (\<lambda>_. defaultLanePoint), rcLane = 0, rcPointMap = Map.empty,
       rcMeasureList = [0, 2]\<rparr>]" exampleMeasures 0 "\<lparr>numerator = 0, denominator = 4\<rparr>"
       "\<lparr>numerator = 1, denominator = 2\<rparr>"]
  by (simp add: renderCall_def render_def exampleLanes_def getLines_def)

lemma find_SomeD: "List.find P xs = Some x \<Longrightarrow> P x \<and> x \<in> set xs"
  by (induction xs) (auto split: if_splits)

lemma hit_row:
  assumes h: "0 < mheight (M meas)" and n: "0 < measureDivision"
    and y: "vy mousePosition = my (M meas)"
    and j: "0 \<le> j" "j \<le> measureDivision"
    and hit: "hitCell linesCache M L lane meas measureDivision mousePosition (i, j)"
  shows "j = measureDivision"
proof (rule ccontr)
  assume "j \<noteq> measureDivision"
  with j have lt: "j + 1 \<le> measureDivision" by simp
  from hit obtain data where
    d: "getNotePointInfo linesCache M lane meas \<lparr>numerator = i, denominator = division (L lane)\<rparr>
          \<lparr>numerator = j, denominator = measureDivision\<rparr> = Some data"
    and lo: "vy (point data) - mheight (M meas) / real_of_int measureDivision / 2 \<le> vy mousePosition"
    by (auto simp: hitCell_def Let_def split: option.splits)
  have dy: "vy (point data) =
      my (M meas) + mheight (M meas) * (1 - real_of_int j / real_of_int measureDivision)"
    using getNotePointInfo_y [OF d] by (simp add: to01_def)
  let ?H = "mheight (M meas)" and ?N = "real_of_int measureDivision"
  have N: "0 < ?N" using n by simp
  have "real_of_int j + 1 \<le> ?N" using lt by linarith
  then have "1 / ?N \<le> 1 - real_of_int j / ?N"
    using N by (simp add: field_simps)
  then have "?H * (1 / ?N) \<le> ?H * (1 - real_of_int j / ?N)"
    using h by (intro mult_left_mono) simp_all
  moreover have "?H * (1 - real_of_int j / ?N) - ?H / ?N / 2 \<le> 0"
    using lo dy y by simp
  moreover have "0 < ?H / ?N / 2" using h N by simp
  ultimately show False by (simp add: field_simps)
qed


text \<open>
  C7.  When the mouse is exactly on the boundary line of the last row (row
  \<open>measureDivision\<close>, at \<open>y = measure.y\<close>) and the hit test finds a cell, the cell it returns
  is in the next measure with vertical index \<open>measureDivision - 1\<close>, and its point is the one
  of row 0 of the next measure.  The measure has a positive height and the division is
  positive.
\<close>

theorem mouse_on_boundary_next_measure:
  assumes "0 < mheight (M meas)" and "0 < measureDivision"
    and "vy mousePosition = my (M meas)"
    and r: "getNotePointInfoFromMousePosition linesCache M L lane meas nextMeas measureDivision
              mousePosition isResizeOrDragMode = Some info"
  shows "verticalIndex info = measureDivision - 1 \<and>
     infoMeasureIndex info = index (M nextMeas) \<and>
     linePointInfo info = getNotePointInfo linesCache M lane nextMeas
        \<lparr>numerator = horizontalIndex info, denominator = division (L lane)\<rparr>
        \<lparr>numerator = 0, denominator = measureDivision\<rparr>"
proof -
  let ?cells = "concat (map (\<lambda>i. map (\<lambda>j. (i, j)) [0..measureDivision])
      [(if isResizeOrDragMode then - division (L lane) else 0)..
       division (L lane) + (if isResizeOrDragMode then 1 else 0) - 1])"
  from r obtain i j where
    f: "List.find (hitCell linesCache M L lane meas measureDivision mousePosition) ?cells = Some (i, j)"
    by (auto simp: getNotePointInfoFromMousePosition_def Let_def split: option.splits)
  then have hit: "hitCell linesCache M L lane meas measureDivision mousePosition (i, j)"
    and mem: "(i, j) \<in> set ?cells"
    by (auto dest: find_SomeD)
  from mem have j: "0 \<le> j" "j \<le> measureDivision" by auto
  have "j = measureDivision"
    using hit_row [OF assms(1-3) j hit] .
  with r f show ?thesis
    by (auto simp: getNotePointInfoFromMousePosition_def Let_def)
qed

lemma upto_0_2: "[0..2::int] = [0, 1, 2]" and upto_0_3: "[0..3::int] = [0, 1, 2, 3]"
  by (simp_all add: upto.simps)

lemma exampleCache_hit:
  "getNotePointInfoFromMousePosition exampleCache exampleMeasures exampleLanes 0 0 2 2
     \<lparr>vx = 15, vy = 0\<rparr> False =
   Some \<lparr>infoLane = 0,
          linePointInfo = Some \<lparr>point = \<lparr>vx = 10, vy = 100\<rparr>, width = 20\<rparr>,
          horizontalIndex = 0, verticalIndex = 1, infoMeasureIndex = 1\<rparr>"
  by (simp add: getNotePointInfoFromMousePosition_def hitCell_def getNotePointInfo_def
      exampleCache_def exampleMeasures_def exampleLanes_def to01_def lerp_def inverseLerp_def
      upto_0_2 upto_0_3)

theorem mouse_on_boundary_next_measure_witness:
  "0 < mheight (exampleMeasures 0) \<and> vy \<lparr>vx = 15, vy = 0\<rparr> = my (exampleMeasures 0) \<and>
   getNotePointInfoFromMousePosition exampleCache exampleMeasures exampleLanes 0 0 2 2
     \<lparr>vx = 15, vy = 0\<rparr> False =
   Some \<lparr>infoLane = 0,
          linePointInfo = Some \<lparr>point = \<lparr>vx = 10, vy = 100\<rparr>, width = 20\<rparr>,
          horizontalIndex = 0, verticalIndex = 1, infoMeasureIndex = 1\<rparr> \<and>
   index (exampleMeasures 2) = 1"
proof -
  have h: "0 < mheight (exampleMeasures 0)" and y: "vy \<lparr>vx = 15, vy = 0\<rparr> = my (exampleMeasures 0)"
    and n: "index (exampleMeasures 2) = 1"
    by (simp_all add: exampleMeasures_def)
  have d: "(0::int) < 2" by simp
  from mouse_on_boundary_next_measure [OF h d y exampleCache_hit] h y n exampleCache_hit
  show ?thesis by simp
qed

subsection \<open>optimizeLane\<close>

lemma findLanePoint_cong:
  "lanePoints t' = lanePoints t \<Longrightarrow> lanePointObj t' = lanePointObj t \<Longrightarrow>
   findLanePoint t' = findLanePoint t"
  by (simp add: findLanePoint_def fun_eq_iff)

lemma pointPosition_cong:
  "lanePoints t' = lanePoints t \<Longrightarrow> lanePointObj t' = lanePointObj t \<Longrightarrow>
   pointPosition t' = pointPosition t"
  using findLanePoint_cong [of t' t] by (simp add: pointPosition_def fun_eq_iff split: option.splits)

lemma sortLane_frame:
  assumes "sortLane t l = Inr t'"
  shows "lanes t' = lanes t" "lanePoints t' = lanePoints t" "lanePointObj t' = lanePointObj t"
    "findLanePoint t' = findLanePoint t" "pointPosition t' = pointPosition t"
    "\<And>k. k \<noteq> l \<Longrightarrow> laneObj t' k = laneObj t k"
proof -
  from assms have t': "t' = t\<lparr>laneObj := (laneObj t)
      (l := (laneObj t l)\<lparr>points := sort_key (pointPosition t) (points (laneObj t l))\<rparr>)\<rparr>"
    by (auto simp: sortLane_def Let_def split: if_splits)
  show "lanes t' = lanes t" "lanePoints t' = lanePoints t" "lanePointObj t' = lanePointObj t"
    "\<And>k. k \<noteq> l \<Longrightarrow> laneObj t' k = laneObj t k"
    by (simp_all add: t')
  show "findLanePoint t' = findLanePoint t"
    by (rule findLanePoint_cong) (simp_all add: t')
  show "pointPosition t' = pointPosition t"
    by (rule pointPosition_cong) (simp_all add: t')
qed

lemma sortLane_good:
  assumes "sortLane t l = Inr t'"
  shows "goodLane t' l"
proof -
  have p: "pointPosition t' = pointPosition t" "findLanePoint t' = findLanePoint t"
    using sortLane_frame [OF assms] by simp_all
  from assms have pts: "points (laneObj t' l) = sort_key (pointPosition t) (points (laneObj t l))"
    and res: "\<not> (2 \<le> length (points (laneObj t l)) \<and>
        list_ex (\<lambda>g. findLanePoint t g = None) (points (laneObj t l)))"
    by (auto simp: sortLane_def Let_def split: if_splits)
  show ?thesis
    using res by (auto simp: goodLane_def p pts sorted_sort_key list_ex_iff)
qed

lemma sortLane_keeps_good:
  assumes "sortLane t l = Inr t'" and "goodLane t k"
  shows "goodLane t' k"
proof (cases "k = l")
  case True with assms(1) show ?thesis by (simp add: sortLane_good)
next
  case False
  with sortLane_frame [OF assms(1)] assms(2) show ?thesis by (simp add: goodLane_def)
qed

lemma sortLanes_good:
  "sortLanes t ls = Inr t' \<Longrightarrow>
   lanes t' = lanes t \<and> (\<forall>l \<in> set ls. goodLane t' l) \<and> (\<forall>k. goodLane t k \<longrightarrow> goodLane t' k)"
proof (induction ls arbitrary: t)
  case Nil then show ?case by simp
next
  case (Cons l ls)
  then obtain t1 where s1: "sortLane t l = Inr t1" and s2: "sortLanes t1 ls = Inr t'"
    by (auto split: sum.splits)
  from Cons.IH [OF s2] sortLane_frame(1) [OF s1] sortLane_good [OF s1] sortLane_keeps_good [OF s1]
  show ?case by auto
qed

lemma sortLane_id:
  assumes "goodLane t l"
  shows "sortLane t l = Inr t"
proof -
  from assms have "sort_key (pointPosition t) (points (laneObj t l)) = points (laneObj t l)"
    by (simp add: goodLane_def sort_key_id_if_sorted)
  moreover from assms have "\<not> (2 \<le> length (points (laneObj t l)) \<and>
        list_ex (\<lambda>g. findLanePoint t g = None) (points (laneObj t l)))"
    by (auto simp: goodLane_def list_ex_iff)
  ultimately show ?thesis by (simp add: sortLane_def Let_def)
qed

lemma sortLanes_id: "\<forall>l \<in> set ls. goodLane t l \<Longrightarrow> sortLanes t ls = Inr t"
  by (induction ls) (auto simp: sortLane_id)

lemma firstMerge_SomeD:
  "firstMerge t ls = Some (l, n) \<Longrightarrow>
   l \<in> set ls \<and> n \<in> set (lanes t) \<and> n \<noteq> l \<and>
   firstPoint (laneObj t n) = lastPoint (laneObj t l)"
proof (induction ls)
  case Nil then show ?case by simp
next
  case (Cons a ls)
  show ?case
  proof (cases "nextLaneOf t a")
    case None with Cons show ?thesis by simp
  next
    case (Some m)
    with Cons.prems have e: "a = l" "m = n" by simp_all
    from Some have "n \<in> set (lanes t) \<and> n \<noteq> l \<and>
        firstPoint (laneObj t n) = lastPoint (laneObj t l)"
      unfolding nextLaneOf_def e by (auto dest: find_SomeD)
    with e show ?thesis by simp
  qed
qed

lemma sorted_join:
  fixes f :: "'a \<Rightarrow> real"
  assumes "sorted (map f xs)" "sorted (map f ys)"
    and "(case ys of [] \<Rightarrow> None | g # _ \<Rightarrow> Some g) = (if xs = [] then None else Some (last xs))"
  shows "sorted (map f (xs @ drop 1 ys))"
proof (cases ys)
  case Nil with assms show ?thesis by simp
next
  case (Cons y ys')
  with assms(3) have xs: "xs \<noteq> []" "last xs = y" by (auto split: if_splits)
  have a: "\<forall>x \<in> set xs. f x \<le> f y"
  proof
    fix x assume "x \<in> set xs"
    then obtain i where i: "i < length xs" "xs ! i = x" by (auto simp: in_set_conv_nth)
    have "map f xs ! i \<le> map f xs ! (length xs - 1)"
      using assms(1) i xs by (intro sorted_nth_mono) auto
    then show "f x \<le> f y" using i xs by (simp add: last_conv_nth)
  qed
  have b: "\<forall>z \<in> set ys'. f y \<le> f z" using assms(2) Cons by auto
  have "sorted (map f ys')" using assms(2) Cons by simp
  with a b assms(1) show ?thesis
    by (fastforce simp: Cons sorted_append)
qed

lemma mergeLanes_fields:
  "lanePoints (mergeLanes E t l n) = lanePoints t"
  "lanePointObj (mergeLanes E t l n) = lanePointObj t"
  "laneObj (mergeLanes E t l n) =
     (laneObj t)(l := (laneObj t l)\<lparr>points := points (laneObj t l) @ drop 1 (points (laneObj t n))\<rparr>)"
  "lanes (mergeLanes E t l n) =
     take (findIndex (\<lambda>x. x = n) (lanes t)) (lanes t) @
     drop (Suc (findIndex (\<lambda>x. x = n) (lanes t))) (lanes t)"
  by (simp_all add: mergeLanes_def Let_def setLanes_def updateLaneMap_def)

lemma mergeLanes_lanes_subset: "set (lanes (mergeLanes E t l n)) \<subseteq> set (lanes t)"
  using set_take_subset [of "findIndex (\<lambda>x. x = n) (lanes t)" "lanes t"]
    set_drop_subset [of "Suc (findIndex (\<lambda>x. x = n) (lanes t))" "lanes t"]
  by (auto simp: mergeLanes_fields)

lemma merged_resolved:
  assumes gl: "goodLane t l" and gn: "goodLane t n"
    and j: "firstPoint (laneObj t n) = lastPoint (laneObj t l)"
    and len: "2 \<le> length (points (laneObj t l) @ drop 1 (points (laneObj t n)))"
    and g: "g \<in> set (points (laneObj t l) @ drop 1 (points (laneObj t n)))"
  shows "findLanePoint t g \<noteq> None"
proof (cases "points (laneObj t n)")
  case Nil
  with j have "points (laneObj t l) = []"
    by (simp add: firstPoint_def lastPoint_def split: if_splits)
  with Nil len show ?thesis by simp
next
  case (Cons y ys)
  with j have xs: "points (laneObj t l) \<noteq> []" "last (points (laneObj t l)) = y"
    by (auto simp: firstPoint_def lastPoint_def split: if_splits)
  show ?thesis
  proof (cases "2 \<le> length (points (laneObj t l))")
    case True
    from g consider "g \<in> set (points (laneObj t l))" | "g \<in> set ys" using Cons by auto
    then show ?thesis
    proof cases
      case 1 with gl True show ?thesis by (simp add: goodLane_def)
    next
      case 2
      then have "2 \<le> length (points (laneObj t n))" using Cons by (cases ys) auto
      with gn 2 Cons show ?thesis by (simp add: goodLane_def)
    qed
  next
    case False
    with xs have one: "points (laneObj t l) = [y]"
      by (cases "points (laneObj t l)") (auto simp: Suc_le_eq split: if_splits)
    with len Cons have "2 \<le> length (points (laneObj t n))" by simp
    moreover from g one Cons have "g \<in> set (points (laneObj t n))" by auto
    ultimately show ?thesis using gn by (simp add: goodLane_def)
  qed
qed

lemma mergeLanes_good:
  assumes good: "\<forall>k \<in> set (lanes t). goodLane t k"
    and f: "firstMerge t (lanes t) = Some (l, n)"
  shows "\<forall>k \<in> set (lanes (mergeLanes E t l n)). goodLane (mergeLanes E t l n) k"
proof
  fix k assume "k \<in> set (lanes (mergeLanes E t l n))"
  then have k: "k \<in> set (lanes t)" using mergeLanes_lanes_subset by blast
  from firstMerge_SomeD [OF f] have l: "l \<in> set (lanes t)" and n: "n \<in> set (lanes t)"
    and j: "firstPoint (laneObj t n) = lastPoint (laneObj t l)" by simp_all
  have pp: "pointPosition (mergeLanes E t l n) = pointPosition t"
    by (rule pointPosition_cong) (simp_all add: mergeLanes_fields)
  have fl: "findLanePoint (mergeLanes E t l n) = findLanePoint t"
    by (rule findLanePoint_cong) (simp_all add: mergeLanes_fields)
  show "goodLane (mergeLanes E t l n) k"
  proof (cases "k = l")
    case False
    with good k show ?thesis by (simp add: goodLane_def pp fl mergeLanes_fields)
  next
    case True
    have gl: "goodLane t l" and gn: "goodLane t n" using good l n by simp_all
    have "sorted (map (pointPosition t) (points (laneObj t l) @ drop 1 (points (laneObj t n))))"
      using gl gn j by (intro sorted_join) (simp_all add: goodLane_def firstPoint_def lastPoint_def)
    moreover have "2 \<le> length (points (laneObj t l) @ drop 1 (points (laneObj t n))) \<longrightarrow>
      (\<forall>g \<in> set (points (laneObj t l) @ drop 1 (points (laneObj t n))). findLanePoint t g \<noteq> None)"
      using merged_resolved [OF gl gn j] by blast
    ultimately show ?thesis
      unfolding goodLane_def pp fl mergeLanes_fields True by simp
  qed
qed

lemma mergeLoop_good:
  "\<forall>k \<in> set (lanes t). goodLane t k \<Longrightarrow>
   (\<forall>k \<in> set (lanes (mergeLoop E t)). goodLane (mergeLoop E t) k) \<and>
   firstMerge (mergeLoop E t) (lanes (mergeLoop E t)) = None"
proof (induction E t rule: mergeLoop.induct)
  case (1 E t)
  show ?case
  proof (cases "firstMerge t (lanes t)")
    case None
    then have "mergeLoop E t = t" by (subst mergeLoop.simps) simp
    with None "1.prems" show ?thesis by simp
  next
    case (Some x)
    obtain l n where x: "x = (l, n)" by (cases x)
    have m: "mergeLoop E t = mergeLoop E (mergeLanes E t l n)"
      using Some x by (subst mergeLoop.simps) simp
    from "1.IH" [OF Some x [symmetric]] mergeLanes_good [OF "1.prems"] Some x
    show ?thesis unfolding m by blast
  qed
qed

text \<open>
  C6.  \<open>optimizeLane\<close> is idempotent: applied to its own result it returns that result
  unchanged, so the lanes, the order of their points and the lane of every note are the same
  after the second run as after the first.
\<close>

theorem optimizeLane_idempotent:
  assumes "optimizeLane E t = Inr t'"
  shows "optimizeLane E t' = Inr t'"
proof -
  from assms obtain t1 where s: "sortLanes t (lanes t) = Inr t1" and t': "t' = mergeLoop E t1"
    by (auto simp: optimizeLane_def split: sum.splits)
  from sortLanes_good [OF s] have "\<forall>k \<in> set (lanes t1). goodLane t1 k" by simp
  from mergeLoop_good [OF this, of E]
  have good: "\<forall>k \<in> set (lanes t'). goodLane t' k" and none: "firstMerge t' (lanes t') = None"
    by (simp_all add: t')
  have "sortLanes t' (lanes t') = Inr t'" using good by (rule sortLanes_id)
  moreover have "mergeLoop E t' = t'" using none by (subst mergeLoop.simps) simp
  ultimately show ?thesis by (simp add: optimizeLane_def)
qed

lemma exampleTwoLanes_pos:
  "pointPosition exampleTwoLanes ''a'' = 0" "pointPosition exampleTwoLanes ''b'' = 1"
  "pointPosition exampleTwoLanes ''c'' = 2"
  "findLanePoint exampleTwoLanes ''a'' = Some 0" "findLanePoint exampleTwoLanes ''b'' = Some 2"
  "findLanePoint exampleTwoLanes ''c'' = Some 3"
  by (simp_all add: pointPosition_def findLanePoint_def exampleTwoLanes_def TimelineRecord_def
      defaultLanePoint_def lanePointPos_def to01_def)

lemma exampleTwoLanes_sorted:
  "sortLanes exampleTwoLanes (lanes exampleTwoLanes) =
     Inr (exampleTwoLanes\<lparr>laneObj := (laneObj exampleTwoLanes)
        (0 := \<lparr>lguid = ''l0'', points = [''a'', ''b''], templateName = ''normal'', division = 4\<rparr>)\<rparr>)"
  apply (simp add: exampleTwoLanes_def TimelineRecord_def)
  apply (simp add: sortLane_def findLanePoint_def pointPosition_def
      defaultLanePoint_def lanePointPos_def to01_def)
  apply (simp add: fun_upd_twist)
  done

lemma exampleSorted_fields:
  "lanes exampleSorted = [0, 2]" "notes exampleSorted = [0]"
  "points (laneObj exampleSorted 0) = [''a'', ''b'']"
  "points (laneObj exampleSorted 2) = [''b'', ''c'']"
  "lguid (laneObj exampleSorted 0) = ''l0''" "lguid (laneObj exampleSorted 2) = ''l2''"
  "noteLane (noteObj exampleSorted 0) = ''l2''"
  by (simp_all add: exampleSorted_def exampleTwoLanes_def TimelineRecord_def)

lemma exampleSorted_first: "firstMerge exampleSorted (lanes exampleSorted) = Some (0, 2)"
  by (simp add: exampleSorted_fields nextLaneOf_def firstPoint_def lastPoint_def)

lemma exampleMerged_fields:
  "lanes (mergeLanes exampleEnv exampleSorted 0 2) = [0]"
  "points (laneObj (mergeLanes exampleEnv exampleSorted 0 2) 0) = [''a'', ''b'', ''c'']"
  "noteLane (noteObj (mergeLanes exampleEnv exampleSorted 0 2) 0) = ''l0''"
  by (simp_all add: mergeLanes_def Let_def setLanes_def updateLaneMap_def calculateTime_def
      setTime_def findIndex_def exampleSorted_fields)

lemma exampleMerged_loop:
  "mergeLoop exampleEnv exampleSorted = mergeLanes exampleEnv exampleSorted 0 2"
proof -
  have "firstMerge (mergeLanes exampleEnv exampleSorted 0 2)
      (lanes (mergeLanes exampleEnv exampleSorted 0 2)) = None"
    by (simp add: exampleMerged_fields nextLaneOf_def)
  then have "mergeLoop exampleEnv (mergeLanes exampleEnv exampleSorted 0 2) =
      mergeLanes exampleEnv exampleSorted 0 2"
    by (subst mergeLoop.simps) simp
  then show ?thesis
    using exampleSorted_first by (subst mergeLoop.simps) simp
qed

theorem optimizeLane_idempotent_witness:
  "optimizeLane exampleEnv exampleTwoLanes = Inr (mergeLanes exampleEnv exampleSorted 0 2) \<and>
   lanes (mergeLanes exampleEnv exampleSorted 0 2) = [0] \<and>
   points (laneObj (mergeLanes exampleEnv exampleSorted 0 2) 0) = [''a'', ''b'', ''c''] \<and>
   noteLane (noteObj (mergeLanes exampleEnv exampleSorted 0 2) 0) = ''l0'' \<and>
   optimizeLane exampleEnv (mergeLanes exampleEnv exampleSorted 0 2) =
     Inr (mergeLanes exampleEnv exampleSorted 0 2)"
proof -
  have o: "optimizeLane exampleEnv exampleTwoLanes = Inr (mergeLanes exampleEnv exampleSorted 0 2)"
    using exampleTwoLanes_sorted
    by (simp add: optimizeLane_def exampleMerged_loop flip: exampleSorted_def)
  from optimizeLane_idempotent [OF o] o show ?thesis
    by (simp add: exampleMerged_fields)
qed

subsection \<open>Serialised state\<close>

lemma updateLaneMap_frame [simp]:
  "notes (updateLaneMap E t) = notes t"
  "noteLines (updateLaneMap E t) = noteLines t"
  "measures (updateLaneMap E t) = measures t"
  "lanes (updateLaneMap E t) = lanes t"
  "lanePoints (updateLaneMap E t) = lanePoints t"
  "otherObjects (updateLaneMap E t) = otherObjects t"
  "noteLineObj (updateLaneMap E t) = noteLineObj t"
  "measureObj (updateLaneMap E t) = measureObj t"
  "laneObj (updateLaneMap E t) = laneObj t"
  "lanePointObj (updateLaneMap E t) = lanePointObj t"
  "otherObj (updateLaneMap E t) = otherObj t"
  "nextRef (updateLaneMap E t) = nextRef t"
  "noteMap (updateLaneMap E t) = noteMap t"
  "lanePointMap (updateLaneMap E t) = lanePointMap t"
  "histories (updateLaneMap E t) = histories t"
  "historyIndex (updateLaneMap E t) = historyIndex t"
  "prevData (updateLaneMap E t) = prevData t"
  "chart (updateLaneMap E t) = chart t"
  "previouslyCreatedNote (updateLaneMap E t) = previouslyCreatedNote t"
  by (simp_all add: updateLaneMap_def)

lemma updateLanePointMap_frame [simp]:
  "notes (updateLanePointMap t) = notes t"
  "noteLines (updateLanePointMap t) = noteLines t"
  "measures (updateLanePointMap t) = measures t"
  "lanes (updateLanePointMap t) = lanes t"
  "lanePoints (updateLanePointMap t) = lanePoints t"
  "otherObjects (updateLanePointMap t) = otherObjects t"
  "noteObj (updateLanePointMap t) = noteObj t"
  "noteLineObj (updateLanePointMap t) = noteLineObj t"
  "measureObj (updateLanePointMap t) = measureObj t"
  "laneObj (updateLanePointMap t) = laneObj t"
  "lanePointObj (updateLanePointMap t) = lanePointObj t"
  "otherObj (updateLanePointMap t) = otherObj t"
  "nextRef (updateLanePointMap t) = nextRef t"
  "noteMap (updateLanePointMap t) = noteMap t"
  "laneMap (updateLanePointMap t) = laneMap t"
  "timeCalculator (updateLanePointMap t) = timeCalculator t"
  "histories (updateLanePointMap t) = histories t"
  "historyIndex (updateLanePointMap t) = historyIndex t"
  "prevData (updateLanePointMap t) = prevData t"
  "chart (updateLanePointMap t) = chart t"
  "previouslyCreatedNote (updateLanePointMap t) = previouslyCreatedNote t"
  by (simp_all add: updateLanePointMap_def)

lemma fold_upd_idem:
  assumes "\<And>x. f (f x) = f x"
  shows "fold (\<lambda>r h. h(r := f (h r))) rs h r = (if r \<in> set rs then f (h r) else h r)"
  using assms by (induction rs arbitrary: h) auto

lemma setTime_idem [simp]: "setTime E tc (setTime E tc n) = setTime E tc n"
  by (simp add: setTime_def notePos_def)

lemma calculateTime_noteObj:
  "noteObj (calculateTime E t) r =
     (if r \<in> set (notes t)
      then setTime E \<lparr>tcObjects = sortMeasure (map (otherObj t) (otherObjects t)),
                       tcMeasures = map (measureObj t) (measures t)\<rparr> (noteObj t r)
      else noteObj t r)"
  by (simp add: calculateTime_def Let_def fold_upd_idem)

lemma toJS_calculateTime [simp]: "toJS (calculateTime E t) = retime E (toJS t)"
  by (simp add: toJS_def retime_def calculateTime_noteObj)

lemma toJS_updateNoteMap [simp]: "toJS (updateNoteMap E t) = retime E (toJS t)"
  by (simp add: updateNoteMap_def) (simp add: toJS_def)

lemma toJS_updateLaneMap [simp]: "toJS (updateLaneMap E t) = retime E (toJS t)"
  by (simp add: updateLaneMap_def) (simp add: toJS_def)

lemma toJS_updateLanePointMap [simp]: "toJS (updateLanePointMap t) = toJS t"
  by (simp add: toJS_def)

lemma retime_idem [simp]: "retime E (retime E d) = retime E d"
  by (simp add: retime_def)

lemma map_allocate [simp]: "map (allocate k xs h) [k..<k + length xs] = xs"
  by (rule nth_equalityI) (simp_all add: allocate_def)

lemma toJS_toMutable [simp]: "toJS (toMutable E t d) = retime E d"
proof -
  have "toJS (toMutable E t d) = retime E (retime E d)"
    unfolding toMutable_def Let_def
    by (simp only: toJS_updateLaneMap toJS_updateLanePointMap toJS_updateNoteMap)
       (cases d, simp add: toJS_def)
  then show ?thesis by simp
qed

lemma toMutable_history [simp]:
  "histories (toMutable E t d) = histories t"
  "historyIndex (toMutable E t d) = historyIndex t"
  "prevData (toMutable E t d) = prevData t"
  "chart (toMutable E t d) = chart t"
  by (simp_all add: toMutable_def Let_def)

subsection \<open>The history chain\<close>

lemma save_chain:
  assumes c: "chain E t ds"
  shows "\<exists>t' c'. save E t = Inr t' \<and>
     chain E t' (take (Suc (nat (historyIndex t))) ds @ [toJS t']) \<and>
     historyIndex t' = historyIndex t + 1 \<and>
     chart t' = Some c' \<and> canUndo c' \<and> \<not> canRedo c' \<and>
     prevData t' = Some (toJS t') \<and>
     int (length (histories t')) = historyIndex t + 1"
proof -
  let ?k = "nat (historyIndex t)"
  let ?t1 = "t\<lparr>noteObj := fold (\<lambda>note h. h(note := note_normalize E (h note))) (notes t) (noteObj t)\<rparr>"
  let ?b = "toJS ?t1"
  let ?hs = "take ?k (histories t) @
      [\<lparr>h_undo = jsonpatch_compare E (ds ! ?k) ?b, h_redo = jsonpatch_compare E ?b (ds ! ?k)\<rparr>]"
  from c obtain c0 where ch: "chart t = Some c0" by (auto simp: chain_def)
  from c have k: "0 \<le> historyIndex t" "?k \<le> length (histories t)"
    and pd: "prevData t = Some (ds ! ?k)" and len: "length ds = Suc (length (histories t))"
    and ne: "histories t \<noteq> []"
    and ent: "\<forall>i < length (histories t). histories t ! i =
        \<lparr>h_undo = jsonpatch_compare E (ds ! i) (ds ! Suc i),
         h_redo = jsonpatch_compare E (ds ! Suc i) (ds ! i)\<rparr>"
    by (auto simp: chain_def)
  let ?t' = "?t1\<lparr>histories := ?hs, historyIndex := historyIndex t + 1,
      chart := Some (c0\<lparr>canUndo := True, canRedo := False\<rparr>), prevData := Some ?b\<rparr>"
  have sl: "slice0 (historyIndex t) (histories t) = take ?k (histories t)"
    using k by (simp add: slice0_def)
  have s: "save E t = Inr ?t'"
    using ne pd ch by (simp add: save_def Let_def sl toJS_def)
  have js: "toJS ?t' = ?b" by (simp add: toJS_def)
  have lh: "length ?hs = Suc ?k" using k by simp
  have ents: "\<forall>i < length ?hs. ?hs ! i =
        \<lparr>h_undo = jsonpatch_compare E ((take (Suc ?k) ds @ [?b]) ! i) ((take (Suc ?k) ds @ [?b]) ! Suc i),
         h_redo = jsonpatch_compare E ((take (Suc ?k) ds @ [?b]) ! Suc i) ((take (Suc ?k) ds @ [?b]) ! i)\<rparr>"
  proof (intro allI impI)
    fix i assume "i < length ?hs"
    then have i: "i \<le> ?k" using lh by simp
    show "?hs ! i =
        \<lparr>h_undo = jsonpatch_compare E ((take (Suc ?k) ds @ [?b]) ! i) ((take (Suc ?k) ds @ [?b]) ! Suc i),
         h_redo = jsonpatch_compare E ((take (Suc ?k) ds @ [?b]) ! Suc i) ((take (Suc ?k) ds @ [?b]) ! i)\<rparr>"
    proof (cases "i = ?k")
      case True
      then show ?thesis using k len by (simp add: nth_append)
    next
      case False
      with i have lt: "i < ?k" by simp
      then have "?hs ! i = histories t ! i" using k by (simp add: nth_append)
      moreover have "(take (Suc ?k) ds @ [?b]) ! i = ds ! i" "(take (Suc ?k) ds @ [?b]) ! Suc i = ds ! Suc i"
        using lt k len by (simp_all add: nth_append)
      ultimately show ?thesis using ent lt k by simp
    qed
  qed
  have "chain E ?t' (take (Suc ?k) ds @ [toJS ?t'])"
    unfolding js chain_def using ents k len lh
    by (simp add: nth_append)
  with s js k show ?thesis by (intro exI [of _ ?t'] exI [of _ "c0\<lparr>canUndo := True, canRedo := False\<rparr>"]) simp
qed

lemma undo_chain:
  assumes r: "patch_roundtrip E" and c: "chain E t ds"
    and ch: "chart t = Some c0" and cu: "canUndo c0" and k2: "1 \<le> historyIndex t"
  shows "\<exists>t'. undo E t = Inr t' \<and> chain E t' ds \<and>
     historyIndex t' = historyIndex t - 1 \<and> histories t' = histories t \<and>
     toJS t' = retime E (ds ! nat (historyIndex t - 1)) \<and>
     prevData t' = Some (ds ! nat (historyIndex t - 1)) \<and>
     chart t' = Some (c0\<lparr>canRedo := True, canUndo := (1 < historyIndex t - 1)\<rparr>)"
proof -
  let ?i = "nat (historyIndex t - 1)"
  from c k2 have i: "Suc ?i = nat (historyIndex t)" "?i < length (histories t)"
    by (auto simp: chain_def)
  from c i have pd: "prevData t = Some (ds ! Suc ?i)"
    and ent: "histories t ! ?i =
        \<lparr>h_undo = jsonpatch_compare E (ds ! ?i) (ds ! Suc ?i),
         h_redo = jsonpatch_compare E (ds ! Suc ?i) (ds ! ?i)\<rparr>"
    by (simp_all add: chain_def)
  have at: "historyAt (histories t) (historyIndex t - 1) = Inr (histories t ! ?i)"
    using i k2 by (simp add: historyAt_def)
  have ap: "jsonpatch_applyPatch E (ds ! Suc ?i) (h_redo (histories t ! ?i)) = Inr (ds ! ?i)"
    using r by (simp add: ent patch_roundtrip_def)
  let ?t' = "(toMutable E (t\<lparr>historyIndex := historyIndex t - 1, prevData := Some (ds ! ?i)\<rparr>) (ds ! ?i))
      \<lparr>chart := Some (c0\<lparr>canRedo := True, canUndo := (1 < historyIndex t - 1)\<rparr>),
       previouslyCreatedNote := None\<rparr>"
  have u: "undo E t = Inr ?t'"
    using ch cu by (simp add: undo_def Let_def at pd ap)
  have js: "toJS ?t' = retime E (ds ! ?i)"
    using toJS_toMutable [of E "t\<lparr>historyIndex := historyIndex t - 1, prevData := Some (ds ! ?i)\<rparr>" "ds ! ?i"]
    by (simp add: toJS_def)
  have "chain E ?t' ds" using c k2 by (simp add: chain_def)
  with u js show ?thesis by (intro exI [of _ ?t']) simp
qed


lemma fold_upd_distinct:
  "distinct rs \<Longrightarrow>
   fold (\<lambda>r h. h(r := f (h r))) rs h r = (if r \<in> set rs then f (h r) else h r)"
  by (induction rs arbitrary: h) auto

lemma toMutable_notes_distinct: "distinct (notes (toMutable E t d))"
  by (simp add: toMutable_def Let_def)

lemma new_chain:
  "\<exists>t0. TimelineRecord_new E c d = Inr t0 \<and> chain E t0 [defaultTimelineData, toJS t0] \<and>
     historyIndex t0 = 1 \<and> chart t0 = Some c \<and> length (histories t0) = 1 \<and>
     prevData t0 = Some (toJS t0) \<and>
     toJS t0 = (retime E d)\<lparr>notesD := map (note_normalize E) (notesD (retime E d))\<rparr>"
proof -
  let ?tm = "toMutable E (TimelineRecord\<lparr>chart := Some c\<rparr>) d"
  let ?t1 = "?tm\<lparr>noteObj := fold (\<lambda>note h. h(note := note_normalize E (h note))) (notes ?tm) (noteObj ?tm)\<rparr>"
  have h: "histories ?tm = []" "historyIndex ?tm = 0" "chart ?tm = Some c"
    by (simp_all add: TimelineRecord_def)
  have n: "TimelineRecord_new E c d = Inr (initialSave E ?t1)"
    using h by (simp add: TimelineRecord_new_def save_def Let_def)
  have "map (noteObj ?t1) (notes ?tm) = map (note_normalize E) (map (noteObj ?tm) (notes ?tm))"
    by (simp add: fold_upd_distinct [OF toMutable_notes_distinct])
  then have "toJS ?t1 = (toJS ?tm)\<lparr>notesD := map (note_normalize E) (notesD (toJS ?tm))\<rparr>"
    by (simp add: toJS_def)
  then have js1: "toJS ?t1 = (retime E d)\<lparr>notesD := map (note_normalize E) (notesD (retime E d))\<rparr>"
    by simp
  have js: "toJS (initialSave E ?t1) = toJS ?t1"
    by (simp add: initialSave_def Let_def toJS_def)
  have "chain E (initialSave E ?t1) [defaultTimelineData, toJS (initialSave E ?t1)]"
    unfolding js using h by (simp add: chain_def initialSave_def Let_def)
  moreover have "historyIndex (initialSave E ?t1) = 1" "chart (initialSave E ?t1) = Some c"
    "length (histories (initialSave E ?t1)) = 1"
    "prevData (initialSave E ?t1) = Some (toJS ?t1)"
    using h by (simp_all add: initialSave_def Let_def)
  ultimately show ?thesis using n js js1 by (intro exI [of _ "initialSave E ?t1"]) simp
qed

lemma new_times_current:
  assumes "normalize_keeps_time E" and "TimelineRecord_new E c d = Inr t0"
  shows "retime E (toJS t0) = toJS t0"
proof -
  from new_chain [of E c d] assms(2)
  have js: "toJS t0 = (retime E d)\<lparr>notesD := map (note_normalize E) (notesD (retime E d))\<rparr>"
    by auto
  show ?thesis
    using assms(1) unfolding js by (simp add: retime_def normalize_keeps_time_def)
qed

lemma applyEdit_chain: "chain E t ds \<Longrightarrow> chain E (applyEdit f t) ds"
  by (simp add: chain_def applyEdit_def)

lemma editSaves_chain:
  assumes "chain E t ds"
  shows "\<exists>t' ds'. editSaves E fs t = Inr t' \<and> chain E t' ds' \<and>
     (\<forall>i \<le> nat (historyIndex t). ds' ! i = ds ! i) \<and>
     historyIndex t' = historyIndex t + int (length fs) \<and>
     (fs \<noteq> [] \<longrightarrow> (\<exists>c'. chart t' = Some c' \<and> canUndo c'))"
  using assms
proof (induction fs arbitrary: t ds)
  case Nil
  then show ?case by auto
next
  case (Cons f fs)
  let ?e = "applyEdit f t"
  let ?k = "nat (historyIndex t)"
  have ce: "chain E ?e ds" using Cons.prems by (rule applyEdit_chain)
  have ke: "historyIndex ?e = historyIndex t" by (simp add: applyEdit_def)
  from save_chain [OF ce] obtain t1 c1 where
    s: "save E ?e = Inr t1" and c1: "chain E t1 (take (Suc ?k) ds @ [toJS t1])"
    and k1: "historyIndex t1 = historyIndex t + 1"
    and f1: "chart t1 = Some c1" "canUndo c1"
    unfolding ke by blast
  from Cons.prems have k: "0 \<le> historyIndex t" "length ds = Suc (length (histories t))"
    "historyIndex t \<le> int (length (histories t))"
    by (simp_all add: chain_def)
  from Cons.IH [OF c1] obtain t' ds' where
    r: "editSaves E fs t1 = Inr t'" "chain E t' ds'"
      "\<forall>i \<le> nat (historyIndex t1). ds' ! i = (take (Suc ?k) ds @ [toJS t1]) ! i"
      "historyIndex t' = historyIndex t1 + int (length fs)"
      "fs \<noteq> [] \<longrightarrow> (\<exists>c'. chart t' = Some c' \<and> canUndo c')"
    by blast
  have pre: "\<forall>i \<le> ?k. ds' ! i = ds ! i"
  proof (intro allI impI)
    fix i assume i: "i \<le> ?k"
    then have "i \<le> nat (historyIndex t1)" using k1 k by simp
    with r(3) have "ds' ! i = (take (Suc ?k) ds @ [toJS t1]) ! i" by simp
    also have "\<dots> = ds ! i" using i k by (simp add: nth_append)
    finally show "ds' ! i = ds ! i" .
  qed
  have fl: "\<exists>c'. chart t' = Some c' \<and> canUndo c'"
  proof (cases fs)
    case Nil with r(1) f1 show ?thesis by simp
  next
    case Cons with r(5) show ?thesis by simp
  qed
  show ?case
    using s r(1,2,4) pre k1 fl by (intro exI [of _ t'] exI [of _ ds']) simp
qed

lemma undoTimes_chain:
  assumes "patch_roundtrip E" and "chain E t ds" and "historyIndex t = k + int n"
    and "1 \<le> k" and "chart t = Some c0" and "canUndo c0" and "1 \<le> n"
  shows "\<exists>t' c'. undoTimes E n t = Inr t' \<and> toJS t' = retime E (ds ! nat k) \<and>
     chart t' = Some c' \<and> canUndo c' = (1 < k)"
  using assms(2-)
proof (induction n arbitrary: t c0)
  case 0
  then show ?case by simp
next
  case (Suc m)
  have k2: "1 \<le> historyIndex t" using Suc.prems(2,3) by simp
  from undo_chain [OF assms(1) Suc.prems(1,4,5) k2] obtain t1 where
    u: "undo E t = Inr t1" and c1: "chain E t1 ds"
    and k1: "historyIndex t1 = historyIndex t - 1"
    and js: "toJS t1 = retime E (ds ! nat (historyIndex t - 1))"
    and ch: "chart t1 = Some (c0\<lparr>canRedo := True, canUndo := (1 < historyIndex t - 1)\<rparr>)"
    by blast
  show ?case
  proof (cases m)
    case 0
    with u js ch Suc.prems(2) show ?thesis by simp
  next
    case (Suc m')
    have "\<exists>t' c'. undoTimes E m t1 = Inr t' \<and> toJS t' = retime E (ds ! nat k) \<and>
        chart t' = Some c' \<and> canUndo c' = (1 < k)"
      using c1 k1 ch Suc.prems(2,3) Suc
      by (intro Suc.IH [of t1 "c0\<lparr>canRedo := True, canUndo := (1 < historyIndex t - 1)\<rparr>"]) simp_all
    with u show ?thesis by simp
  qed
qed

text \<open>
  Edits each followed by \<open>save()\<close>, then as many calls of \<open>undo()\<close>: back at the snapshot
  that was under the cursor, reloaded.
\<close>

lemma editSaves_undoTimes:
  assumes r: "patch_roundtrip E" and c: "chain E s ds" and k: "1 \<le> historyIndex s"
    and fs: "fs \<noteq> []"
  shows "\<exists>t1 t2. editSaves E fs s = Inr t1 \<and> undoTimes E (length fs) t1 = Inr t2 \<and>
     toJS t2 = retime E (ds ! nat (historyIndex s))"
proof -
  from editSaves_chain [OF c, of fs] fs obtain t1 ds' c' where
    e: "editSaves E fs s = Inr t1" and c1: "chain E t1 ds'"
    and d1: "\<forall>i \<le> nat (historyIndex s). ds' ! i = ds ! i"
    and k1: "historyIndex t1 = historyIndex s + int (length fs)"
    and f1: "chart t1 = Some c'" "canUndo c'"
    by blast
  have n: "1 \<le> length fs" using fs by (cases fs) simp_all
  from undoTimes_chain [OF r c1 k1 k f1 n] obtain t2 where
    "undoTimes E (length fs) t1 = Inr t2" "toJS t2 = retime E (ds' ! nat (historyIndex s))"
    by blast
  with e d1 show ?thesis by simp
qed

text \<open>
  The round trip from the timeline as created: there the snapshot is the serialised state
  and its times are up to date, if \<open>Note.normalize\<close> keeps them so.
\<close>

lemma created_round_trip:
  assumes "patch_roundtrip E" and "normalize_keeps_time E"
  shows "\<exists>t0 t1 t2. TimelineRecord_new E c d = Inr t0 \<and> editSaves E fs t0 = Inr t1 \<and>
     undoTimes E (length fs) t1 = Inr t2 \<and> toJS t2 = toJS t0"
proof -
  from new_chain [of E c d] obtain t0 where
    n: "TimelineRecord_new E c d = Inr t0" and c0: "chain E t0 [defaultTimelineData, toJS t0]"
    and k0: "historyIndex t0 = 1"
    by blast
  have cur: "retime E (toJS t0) = toJS t0" using assms(2) n by (rule new_times_current)
  show ?thesis
  proof (cases fs)
    case Nil
    with n show ?thesis by simp
  next
    case (Cons f fs')
    from editSaves_undoTimes [OF assms(1) c0, of fs] k0 Cons n cur show ?thesis by auto
  qed
qed

lemma exampleEnv_contracts: "patch_roundtrip exampleEnv" "normalize_keeps_time exampleEnv"
  by (simp_all add: patch_roundtrip_def normalize_keeps_time_def exampleEnv_def setTime_def
      notePos_def)

lemma save_frame:
  assumes "save E t = Inr t'"
  shows "noteLines t' = noteLines t" "noteLineObj t' = noteLineObj t" "nextRef t' = nextRef t"
  using assms
  by (auto simp: save_def Let_def initialSave_def split: if_splits option.splits)

lemma newNoteLine_fields:
  "noteLines (applyEdit (newNoteLine nl) t) = noteLines t @ [nextRef t]"
  "noteLineObj (applyEdit (newNoteLine nl) t) = (noteLineObj t)(nextRef t := nl)"
  "nextRef (applyEdit (newNoteLine nl) t) = Suc (nextRef t)"
  by (simp_all add: applyEdit_def newNoteLine_def addNoteLine_def)

subsection \<open>Reachable states\<close>

lemma undo_Inr_range:
  assumes "undo E t = Inr t'" and "chart t = Some c" and "canUndo c"
  shows "1 \<le> historyIndex t"
  using assms
  by (auto simp: undo_def Let_def historyAt_def split: if_splits sum.splits option.splits)




text \<open>The example states.\<close>

lemma fold_keep [simp]: "fold (\<lambda>r h. h) rs h = h"
  by (induction rs) auto

lemma save_toJS_exampleEnv:
  assumes "save exampleEnv t = Inr t'"
  shows "toJS t' = toJS t" "nextRef t' = nextRef t" "noteLines t' = noteLines t"
    "noteLineObj t' = noteLineObj t"
  using assms
  by (auto simp: save_def Let_def initialSave_def toJS_def exampleEnv_def
      split: if_splits option.splits)









text \<open>
  Why the chart comes with \<open>canUndo\<close> off: on a chart that comes with \<open>canUndo\<close> on, the
  save of \<open>TimelineRecord.new\<close> can be undone, which leaves the empty timeline
  \<open>exampleUndone\<close> with the cursor at 0.  After two edits with their saves, the second
  \<open>undo()\<close> finds \<open>canUndo\<close> off (the cursor is at 1) and does nothing: the first edit stays.
\<close>

lemma undo_below_first_save_example:
  "(case exampleUndone of
      Inl e \<Rightarrow> False
    | Inr s \<Rightarrow>
        noteLinesD (toJS s) = [] \<and>
        (case editSaves exampleEnv [newNoteLine lineA, newNoteLine lineB] s of
           Inl e \<Rightarrow> False
         | Inr t1 \<Rightarrow>
            (case undoTimes exampleEnv 2 t1 of
               Inl e \<Rightarrow> False
             | Inr t2 \<Rightarrow> noteLinesD (toJS t2) = [lineA] \<and> toJS t2 \<noteq> toJS s)))"
proof -
  let ?E = exampleEnv
  let ?cu = "exampleChart\<lparr>canUndo := True\<rparr>"
  from new_chain [of ?E ?cu exampleData] obtain t0 where
    n: "TimelineRecord_new ?E ?cu exampleData = Inr t0"
    and c0: "chain ?E t0 [defaultTimelineData, toJS t0]"
    and k0: "historyIndex t0 = 1" and ch0: "chart t0 = Some ?cu"
    by blast
  have cu: "canUndo ?cu" by simp
  from undo_chain [OF exampleEnv_contracts(1) c0 ch0 cu] k0 obtain s where
    s: "undo ?E t0 = Inr s" "chain ?E s [defaultTimelineData, toJS t0]"
      "historyIndex s = 0" "toJS s = retime ?E defaultTimelineData"
    by auto
  have es: "exampleUndone = Inr s" by (simp add: exampleUndone_def n s(1))
  have js: "noteLinesD (toJS s) = []"
    by (simp add: s(4) retime_def defaultTimelineData_def)
  then have nl: "noteLines s = []" by (simp add: toJS_def)
  let ?e1 = "applyEdit (newNoteLine lineA) s"
  from save_chain [OF applyEdit_chain [OF s(2), of "newNoteLine lineA"]] obtain a ca where
    a: "save ?E ?e1 = Inr a"
      "chain ?E a (take (Suc (nat (historyIndex ?e1))) [defaultTimelineData, toJS t0] @ [toJS a])"
      "historyIndex a = historyIndex ?e1 + 1" "chart a = Some ca" "canUndo ca"
    by blast
  have ka: "historyIndex a = 1" using a(3) s(3) by (simp add: applyEdit_def)
  have ca: "chain ?E a [defaultTimelineData, toJS a]"
    using a(2) s(3) by (simp add: applyEdit_def)
  have ja: "noteLinesD (toJS a) = [lineA]"
    using save_toJS_exampleEnv(1) [OF a(1)] nl by (simp add: toJS_def newNoteLine_fields)
  let ?e2 = "applyEdit (newNoteLine lineB) a"
  from save_chain [OF applyEdit_chain [OF ca, of "newNoteLine lineB"]] obtain b cb where
    b: "save ?E ?e2 = Inr b"
      "chain ?E b (take (Suc (nat (historyIndex ?e2))) [defaultTimelineData, toJS a] @ [toJS b])"
      "historyIndex b = historyIndex ?e2 + 1" "chart b = Some cb" "canUndo cb"
    by blast
  have kb: "historyIndex b = 2" using b(3) ka by (simp add: applyEdit_def)
  have cb: "chain ?E b [defaultTimelineData, toJS a, toJS b]"
    using b(2) ka by (simp add: applyEdit_def)
  have e: "editSaves ?E [newNoteLine lineA, newNoteLine lineB] s = Inr b"
    by (simp add: a(1) b(1))
  from undo_chain [OF exampleEnv_contracts(1) cb b(4,5)] kb obtain u where
    u: "undo ?E b = Inr u" "toJS u = retime ?E (toJS a)"
      "chart u = Some (cb\<lparr>canRedo := True, canUndo := False\<rparr>)"
    by auto
  have u2: "undo ?E u = Inr u" using u(3) by (simp add: undo_def)
  have ut: "undoTimes ?E 2 b = Inr u"
    by (simp add: numeral_2_eq_2 u(1) u2)
  have ju: "noteLinesD (toJS u) = [lineA]" by (simp add: u(2) retime_def ja)
  with js have ne: "toJS u \<noteq> toJS s" by auto
  show ?thesis
    unfolding es using js e ut ju ne by (simp del: editSaves.simps undoTimes.simps)
qed

subsection \<open>Undo followed by redo\<close>






subsection \<open>Derived indices\<close>

lemma calculateTime_nguid [simp]:
  "nguid (noteObj (calculateTime E t) r) = nguid (noteObj t r)"
  by (simp add: calculateTime_noteObj setTime_def)

lemma calculateTime_timeCalculator [simp]:
  "timeCalculator (calculateTime E t) = timeCalculatorOf t"
  by (simp add: calculateTime_def timeCalculatorOf_def Let_def)

lemma calculateTime_Of [simp]:
  "noteMapOf (calculateTime E t) = noteMapOf t"
  "lanePointMapOf (calculateTime E t) = lanePointMapOf t"
  "laneMapOf (calculateTime E t) = laneMapOf t"
  "timeCalculatorOf (calculateTime E t) = timeCalculatorOf t"
  by (simp_all add: noteMapOf_def lanePointMapOf_def laneMapOf_def timeCalculatorOf_def)

lemma updateNoteMap_maps [simp]:
  "noteMap (updateNoteMap E t) = noteMapOf t"
  "timeCalculator (updateNoteMap E t) = timeCalculatorOf t"
  "nguid (noteObj (updateNoteMap E t) r) = nguid (noteObj t r)"
  "noteMapOf (updateNoteMap E t) = noteMapOf t"
  "lanePointMapOf (updateNoteMap E t) = lanePointMapOf t"
  "laneMapOf (updateNoteMap E t) = laneMapOf t"
  "timeCalculatorOf (updateNoteMap E t) = timeCalculatorOf t"
  by (simp_all add: updateNoteMap_def)
     (simp_all add: noteMapOf_def lanePointMapOf_def laneMapOf_def timeCalculatorOf_def)

lemma updateLaneMap_maps [simp]:
  "laneMap (updateLaneMap E t) = laneMapOf t"
  "timeCalculator (updateLaneMap E t) = timeCalculatorOf t"
  "nguid (noteObj (updateLaneMap E t) r) = nguid (noteObj t r)"
  "noteMapOf (updateLaneMap E t) = noteMapOf t"
  "lanePointMapOf (updateLaneMap E t) = lanePointMapOf t"
  "laneMapOf (updateLaneMap E t) = laneMapOf t"
  "timeCalculatorOf (updateLaneMap E t) = timeCalculatorOf t"
  by (simp_all add: updateLaneMap_def)
     (simp_all add: noteMapOf_def lanePointMapOf_def laneMapOf_def timeCalculatorOf_def)

lemma updateLanePointMap_maps [simp]:
  "lanePointMap (updateLanePointMap t) = lanePointMapOf t"
  "noteMapOf (updateLanePointMap t) = noteMapOf t"
  "lanePointMapOf (updateLanePointMap t) = lanePointMapOf t"
  "laneMapOf (updateLanePointMap t) = laneMapOf t"
  "timeCalculatorOf (updateLanePointMap t) = timeCalculatorOf t"
  by (simp_all add: updateLanePointMap_def noteMapOf_def lanePointMapOf_def laneMapOf_def
      timeCalculatorOf_def)

lemmas index_defs = noteIndex_def lanePointIndex_def laneIndex_def timeIndex_def

lemmas Of_defs = noteMapOf_def lanePointMapOf_def laneMapOf_def timeCalculatorOf_def

lemma consistent_index:
  "mapsConsistent t \<longleftrightarrow>
     fst (noteIndex t) = snd (noteIndex t) \<and> fst (lanePointIndex t) = snd (lanePointIndex t) \<and>
     fst (laneIndex t) = snd (laneIndex t)"
  "timeConsistent t \<longleftrightarrow> fst (timeIndex t) = snd (timeIndex t)"
  by (simp_all add: mapsConsistent_def timeConsistent_def index_defs)

lemma calculateTime_index [simp]:
  "noteIndex (calculateTime E t) = noteIndex t"
  "lanePointIndex (calculateTime E t) = lanePointIndex t"
  "laneIndex (calculateTime E t) = laneIndex t"
  "fst (timeIndex (calculateTime E t)) = snd (timeIndex (calculateTime E t))"
  by (simp_all add: index_defs)

lemma updateNoteMap_index [simp]:
  "fst (noteIndex (updateNoteMap E t)) = snd (noteIndex (updateNoteMap E t))"
  "lanePointIndex (updateNoteMap E t) = lanePointIndex t"
  "laneIndex (updateNoteMap E t) = laneIndex t"
  "fst (timeIndex (updateNoteMap E t)) = snd (timeIndex (updateNoteMap E t))"
  by (simp_all add: index_defs)

lemma updateLaneMap_index [simp]:
  "noteIndex (updateLaneMap E t) = noteIndex t"
  "lanePointIndex (updateLaneMap E t) = lanePointIndex t"
  "fst (laneIndex (updateLaneMap E t)) = snd (laneIndex (updateLaneMap E t))"
  "fst (timeIndex (updateLaneMap E t)) = snd (timeIndex (updateLaneMap E t))"
  by (simp_all add: index_defs)

lemma updateLanePointMap_index [simp]:
  "noteIndex (updateLanePointMap t) = noteIndex t"
  "fst (lanePointIndex (updateLanePointMap t)) = snd (lanePointIndex (updateLanePointMap t))"
  "laneIndex (updateLanePointMap t) = laneIndex t"
  "timeIndex (updateLanePointMap t) = timeIndex t"
  by (simp_all add: index_defs)

lemma addNote_index:
  "indexAfter (if b then Rebuilt else Skipped) (noteIndex t) (noteIndex (addNote E t n b))"
  "lanePointIndex (addNote E t n b) = lanePointIndex t"
  "laneIndex (addNote E t n b) = laneIndex t"
  "indexAfter (if b then Rebuilt else Untouched) (timeIndex t) (timeIndex (addNote E t n b))"
  by (cases b; simp add: addNote_def Let_def indexAfter_def; simp add: index_defs Of_defs)+

lemma removeNoteLines_frame [simp]:
  "notes (fold (\<lambda>nl s. removeNoteLine s nl) rs t) = notes t"
  "noteObj (fold (\<lambda>nl s. removeNoteLine s nl) rs t) = noteObj t"
  "noteMap (fold (\<lambda>nl s. removeNoteLine s nl) rs t) = noteMap t"
  "lanePointMap (fold (\<lambda>nl s. removeNoteLine s nl) rs t) = lanePointMap t"
  "laneMap (fold (\<lambda>nl s. removeNoteLine s nl) rs t) = laneMap t"
  "lanePoints (fold (\<lambda>nl s. removeNoteLine s nl) rs t) = lanePoints t"
  "lanePointObj (fold (\<lambda>nl s. removeNoteLine s nl) rs t) = lanePointObj t"
  "lanes (fold (\<lambda>nl s. removeNoteLine s nl) rs t) = lanes t"
  "laneObj (fold (\<lambda>nl s. removeNoteLine s nl) rs t) = laneObj t"
  "timeCalculator (fold (\<lambda>nl s. removeNoteLine s nl) rs t) = timeCalculator t"
  "otherObjects (fold (\<lambda>nl s. removeNoteLine s nl) rs t) = otherObjects t"
  "otherObj (fold (\<lambda>nl s. removeNoteLine s nl) rs t) = otherObj t"
  "measures (fold (\<lambda>nl s. removeNoteLine s nl) rs t) = measures t"
  "measureObj (fold (\<lambda>nl s. removeNoteLine s nl) rs t) = measureObj t"
  by (induction rs arbitrary: t) (simp_all add: removeNoteLine_def)

text \<open>\<open>removeNote\<close> without the map update: what it leaves alone.\<close>

lemma removeNote_False_frame [simp]:
  "noteObj (removeNote E t n False) = noteObj t"
  "noteMap (removeNote E t n False) = noteMap t"
  "lanePointMap (removeNote E t n False) = lanePointMap t"
  "laneMap (removeNote E t n False) = laneMap t"
  "lanePoints (removeNote E t n False) = lanePoints t"
  "lanePointObj (removeNote E t n False) = lanePointObj t"
  "lanes (removeNote E t n False) = lanes t"
  "laneObj (removeNote E t n False) = laneObj t"
  "timeCalculator (removeNote E t n False) = timeCalculator t"
  "otherObjects (removeNote E t n False) = otherObjects t"
  "otherObj (removeNote E t n False) = otherObj t"
  "measures (removeNote E t n False) = measures t"
  "measureObj (removeNote E t n False) = measureObj t"
  by (simp_all add: removeNote_def Let_def split: option.splits)

lemma removeNote_True: "removeNote E t n True = updateNoteMap E (removeNote E t n False)"
  by (simp add: removeNote_def Let_def)

lemma removeNote_False_index [simp]:
  "fst (noteIndex (removeNote E t n False)) = fst (noteIndex t)"
  "lanePointIndex (removeNote E t n False) = lanePointIndex t"
  "laneIndex (removeNote E t n False) = laneIndex t"
  "timeIndex (removeNote E t n False) = timeIndex t"
  by (simp_all add: index_defs Of_defs)

lemma removeNote_index:
  "indexAfter (if b then Rebuilt else Skipped) (noteIndex t) (noteIndex (removeNote E t n b))"
  "lanePointIndex (removeNote E t n b) = lanePointIndex t"
  "laneIndex (removeNote E t n b) = laneIndex t"
  "indexAfter (if b then Rebuilt else Untouched) (timeIndex t) (timeIndex (removeNote E t n b))"
  by (cases b; simp add: removeNote_True indexAfter_def)+

lemma noteLine_ops_index [simp]:
  "noteIndex (addNoteLine t nl) = noteIndex t"
  "lanePointIndex (addNoteLine t nl) = lanePointIndex t"
  "laneIndex (addNoteLine t nl) = laneIndex t"
  "timeIndex (addNoteLine t nl) = timeIndex t"
  "noteIndex (removeNoteLine t nl) = noteIndex t"
  "lanePointIndex (removeNoteLine t nl) = lanePointIndex t"
  "laneIndex (removeNoteLine t nl) = laneIndex t"
  "timeIndex (removeNoteLine t nl) = timeIndex t"
  by (simp_all add: addNoteLine_def removeNoteLine_def index_defs Of_defs)

lemma otherObjects_upd_index [simp]:
  "noteIndex (t\<lparr>otherObjects := os\<rparr>) = noteIndex t"
  "lanePointIndex (t\<lparr>otherObjects := os\<rparr>) = lanePointIndex t"
  "laneIndex (t\<lparr>otherObjects := os\<rparr>) = laneIndex t"
  "fst (timeIndex (t\<lparr>otherObjects := os\<rparr>)) = fst (timeIndex t)"
  by (simp_all add: index_defs Of_defs)

lemma addOtherObject_index:
  "noteIndex (addOtherObject E t ob) = noteIndex t"
  "lanePointIndex (addOtherObject E t ob) = lanePointIndex t"
  "laneIndex (addOtherObject E t ob) = laneIndex t"
  "indexAfter (if isBPM (otherObj t ob) then Rebuilt else Skipped) (timeIndex t)
     (timeIndex (addOtherObject E t ob))"
  by (simp_all add: addOtherObject_def Let_def indexAfter_def)

lemma createInstance_index [simp]:
  "noteIndex (snd (createInstance d t)) = noteIndex t"
  "lanePointIndex (snd (createInstance d t)) = lanePointIndex t"
  "laneIndex (snd (createInstance d t)) = laneIndex t"
  by (simp_all add: createInstance_def index_defs Of_defs)

lemma removeOtherObject_index:
  assumes r: "removeOtherObject E t ob g = Inr t'"
  shows "noteIndex t' = noteIndex t" "lanePointIndex t' = lanePointIndex t"
    "laneIndex t' = laneIndex t"
    "indexAfter (if isBPM (otherObj t ob) then Rebuilt else Skipped) (timeIndex t) (timeIndex t')"
proof -
  let ?t1 = "t\<lparr>otherObjects := filter (\<lambda>obj. obj \<noteq> ob) (otherObjects t)\<rparr>"
  have "noteIndex t' = noteIndex t \<and> lanePointIndex t' = lanePointIndex t \<and>
    laneIndex t' = laneIndex t \<and>
    indexAfter (if isBPM (otherObj t ob) then Rebuilt else Skipped) (timeIndex t) (timeIndex t')"
  proof (cases "isBPM (otherObj t ob)")
    case False
    with r have "t' = ?t1" by (simp add: removeOtherObject_def Let_def)
    with False show ?thesis by (simp add: indexAfter_def)
  next
    case True
    from r True obtain x where t': "t' = calculateTime E x" and x: "x = ?t1 \<or>
        (\<exists>d. x = addOtherObject E (snd (createInstance d ?t1)) (nextRef t))"
      by (auto simp: removeOtherObject_def Let_def createInstance_def
          split: if_splits option.splits list.splits)
    from x have "noteIndex x = noteIndex t \<and> lanePointIndex x = lanePointIndex t \<and>
        laneIndex x = laneIndex t"
      by (auto simp: addOtherObject_index)
    with True show ?thesis by (simp add: t' indexAfter_def)
  qed
  then show "noteIndex t' = noteIndex t" "lanePointIndex t' = lanePointIndex t"
    "laneIndex t' = laneIndex t"
    "indexAfter (if isBPM (otherObj t ob) then Rebuilt else Skipped) (timeIndex t) (timeIndex t')"
    by simp_all
qed

lemma lanes_upd_index [simp]:
  "noteIndex (t\<lparr>lanes := ls\<rparr>) = noteIndex t"
  "lanePointIndex (t\<lparr>lanes := ls\<rparr>) = lanePointIndex t"
  by (simp_all add: index_defs Of_defs)

lemma lane_ops_index:
  "noteIndex (setLanes E t ls) = noteIndex t"
  "lanePointIndex (setLanes E t ls) = lanePointIndex t"
  "fst (laneIndex (setLanes E t ls)) = snd (laneIndex (setLanes E t ls))"
  "fst (timeIndex (setLanes E t ls)) = snd (timeIndex (setLanes E t ls))"
  "noteIndex (addLane E t l) = noteIndex t"
  "lanePointIndex (addLane E t l) = lanePointIndex t"
  "fst (laneIndex (addLane E t l)) = snd (laneIndex (addLane E t l))"
  "fst (timeIndex (addLane E t l)) = snd (timeIndex (addLane E t l))"
  by (simp_all add: setLanes_def addLane_def)

lemma addLanePoint_index:
  "noteIndex (addLanePoint t lp) = noteIndex t"
  "fst (lanePointIndex (addLanePoint t lp)) = snd (lanePointIndex (addLanePoint t lp))"
  "laneIndex (addLanePoint t lp) = laneIndex t"
  "timeIndex (addLanePoint t lp) = timeIndex t"
  by (simp_all add: addLanePoint_def) (simp_all add: index_defs Of_defs)

lemma toMutable_consistent:
  "mapsConsistent (toMutable E t d)" "timeConsistent (toMutable E t d)"
  by (simp_all add: toMutable_def Let_def mapsConsistent_def timeConsistent_def)

lemma flags_index [simp]:
  "noteIndex (t\<lparr>chart := c, previouslyCreatedNote := p\<rparr>) = noteIndex t"
  "lanePointIndex (t\<lparr>chart := c, previouslyCreatedNote := p\<rparr>) = lanePointIndex t"
  "laneIndex (t\<lparr>chart := c, previouslyCreatedNote := p\<rparr>) = laneIndex t"
  "timeIndex (t\<lparr>chart := c, previouslyCreatedNote := p\<rparr>) = timeIndex t"
  by (simp_all add: index_defs Of_defs)

lemma toMutable_index:
  "fst (noteIndex (toMutable E t d)) = snd (noteIndex (toMutable E t d))"
  "fst (lanePointIndex (toMutable E t d)) = snd (lanePointIndex (toMutable E t d))"
  "fst (laneIndex (toMutable E t d)) = snd (laneIndex (toMutable E t d))"
  "fst (timeIndex (toMutable E t d)) = snd (timeIndex (toMutable E t d))"
  using toMutable_consistent [of E t d] by (simp_all add: consistent_index)

lemma undo_index:
  assumes "undo E t = Inr t'"
  shows "indexAfter (onNoteMap (effectsOf t Undo)) (noteIndex t) (noteIndex t') \<and>
     indexAfter (onLanePointMap (effectsOf t Undo)) (lanePointIndex t) (lanePointIndex t') \<and>
     indexAfter (onLaneMap (effectsOf t Undo)) (laneIndex t) (laneIndex t') \<and>
     indexAfter (onTimeCalculator (effectsOf t Undo)) (timeIndex t) (timeIndex t')"
  using assms
  by (auto simp: undo_def Let_def toMutable_index indexAfter_def allOf_def
      split: option.splits if_splits sum.splits)

lemma redo_index:
  assumes "redo E t = Inr t'"
  shows "indexAfter (onNoteMap (effectsOf t Redo)) (noteIndex t) (noteIndex t') \<and>
     indexAfter (onLanePointMap (effectsOf t Redo)) (lanePointIndex t) (lanePointIndex t') \<and>
     indexAfter (onLaneMap (effectsOf t Redo)) (laneIndex t) (laneIndex t') \<and>
     indexAfter (onTimeCalculator (effectsOf t Redo)) (timeIndex t) (timeIndex t')"
  using assms
  by (auto simp: redo_def Let_def toMutable_index indexAfter_def allOf_def
      split: option.splits if_splits sum.splits)

lemma lguid_points_upd [simp]: "lguid ((h(l := (h l)\<lparr>points := ps\<rparr>)) r) = lguid (h r)"
  by simp

lemma sortLane_index:
  assumes "sortLane t l = Inr t'"
  shows "lanePointIndex t' = lanePointIndex t" "laneIndex t' = laneIndex t"
proof -
  from assms have t': "t' = t\<lparr>laneObj := (laneObj t)
      (l := (laneObj t l)\<lparr>points := sort_key (pointPosition t) (points (laneObj t l))\<rparr>)\<rparr>"
    by (auto simp: sortLane_def Let_def split: if_splits)
  show "lanePointIndex t' = lanePointIndex t" "laneIndex t' = laneIndex t"
    unfolding t' index_defs Of_defs
    by (simp_all del: fun_upd_apply)
qed

lemma sortLanes_index:
  "sortLanes t ls = Inr t' \<Longrightarrow>
   lanePointIndex t' = lanePointIndex t \<and> laneIndex t' = laneIndex t"
proof (induction ls arbitrary: t)
  case Nil then show ?case by simp
next
  case (Cons l ls)
  then obtain t1 where s: "sortLane t l = Inr t1" "sortLanes t1 ls = Inr t'"
    by (auto split: sum.splits)
  from Cons.IH [OF s(2)] sortLane_index [OF s(1)] show ?case by simp
qed

lemma mergeLanes_index:
  "lanePointIndex (mergeLanes E t l n) = lanePointIndex t"
  "fst (laneIndex (mergeLanes E t l n)) = snd (laneIndex (mergeLanes E t l n))"
  by (simp_all add: mergeLanes_def Let_def lane_ops_index)
     (simp add: index_defs Of_defs)

lemma mergeLoop_index:
  "lanePointIndex (mergeLoop E t) = lanePointIndex t \<and>
   (if firstMerge t (lanes t) = None then mergeLoop E t = t
    else fst (laneIndex (mergeLoop E t)) = snd (laneIndex (mergeLoop E t)))"
proof (induction E t rule: mergeLoop.induct)
  case (1 E t)
  show ?case
  proof (cases "firstMerge t (lanes t)")
    case None
    then have "mergeLoop E t = t" by (subst mergeLoop.simps) simp
    with None show ?thesis by simp
  next
    case (Some x)
    obtain l n where x: "x = (l, n)" by (cases x)
    let ?m = "mergeLanes E t l n"
    have m: "mergeLoop E t = mergeLoop E ?m"
      using Some x by (subst mergeLoop.simps) simp
    from "1.IH" [OF Some x [symmetric]]
    have ih: "lanePointIndex (mergeLoop E ?m) = lanePointIndex ?m"
      "if firstMerge ?m (lanes ?m) = None then mergeLoop E ?m = ?m
       else fst (laneIndex (mergeLoop E ?m)) = snd (laneIndex (mergeLoop E ?m))"
      by simp_all
    have "fst (laneIndex (mergeLoop E ?m)) = snd (laneIndex (mergeLoop E ?m))"
      using ih(2) mergeLanes_index(2) [of E t l n]
      by (cases "firstMerge ?m (lanes ?m) = None") simp_all
    with ih(1) Some show ?thesis
      unfolding m by (simp add: mergeLanes_index)
  qed
qed

lemma orderNoteLine_index:
  assumes "orderNoteLine t nl = Inr t'"
  shows "lanePointIndex t' = lanePointIndex t" "laneIndex t' = laneIndex t"
  using assms
  by (auto simp: orderNoteLine_def Let_def index_defs Of_defs split: option.splits if_splits)

lemma optimizeNoteLines_index:
  "optimizeNoteLines t nls = Inr t' \<Longrightarrow>
   lanePointIndex t' = lanePointIndex t \<and> laneIndex t' = laneIndex t"
proof (induction nls arbitrary: t)
  case Nil then show ?case by simp
next
  case (Cons nl nls)
  then obtain t1 where s: "orderNoteLine t nl = Inr t1" "optimizeNoteLines t1 nls = Inr t'"
    by (auto split: sum.splits)
  from Cons.IH [OF s(2)] orderNoteLine_index [OF s(1)] show ?case by simp
qed

text \<open>The lane side of the indices, which the pruning of notes does not touch.\<close>

lemma pruneInner_lanes:
  "pruneInner E hp tp gs (t, inner) = Inr (t', inner') \<Longrightarrow>
   lanePointIndex t' = lanePointIndex t \<and> laneIndex t' = laneIndex t"
proof (induction gs arbitrary: t inner)
  case Nil then show ?case by simp
next
  case (Cons g gs)
  from Cons.prems obtain nr where n: "noteMap t g = Some nr"
    by (auto split: option.splits)
  show ?case
  proof (cases "getMeasurePosition (noteObj t nr) < hp \<or> tp < getMeasurePosition (noteObj t nr)")
    case True
    with Cons.prems n have "pruneInner E hp tp gs (removeNote E t nr False, inner) = Inr (t', inner')"
      by (simp add: Let_def)
    from Cons.IH [OF this] show ?thesis by simp
  next
    case False
    with Cons.prems n have "pruneInner E hp tp gs (t, g # inner) = Inr (t', inner')"
      by (simp add: Let_def)
    from Cons.IH [OF this] show ?thesis .
  qed
qed

lemma pruneLines_lanes:
  "pruneLines E nls (t, inner) = Inr (t', inner') \<Longrightarrow>
   lanePointIndex t' = lanePointIndex t \<and> laneIndex t' = laneIndex t"
proof (induction nls arbitrary: t inner)
  case Nil then show ?case by simp
next
  case (Cons nl nls)
  from Cons.prems obtain t1 inner1 hn tn where
    p: "pruneInner E (getMeasurePosition (noteObj t hn)) (getMeasurePosition (noteObj t tn))
          (innerNotes (noteLineObj t nl)) (t, inner) = Inr (t1, inner1)"
    and q: "pruneLines E nls (t1, inner1) = Inr (t', inner')"
    by (auto split: option.splits sum.splits)
  from Cons.IH [OF q] pruneInner_lanes [OF p] show ?case by simp
qed

lemma pruneNotes_lanes:
  "lanePointIndex (pruneNotes E ns inner t) = lanePointIndex t \<and>
   laneIndex (pruneNotes E ns inner t) = laneIndex t"
  by (induction ns arbitrary: t) simp_all

lemma optimizeNote_index:
  assumes "optimizeNote E t = Inr t'"
  shows "fst (noteIndex t') = snd (noteIndex t')" "lanePointIndex t' = lanePointIndex t"
    "laneIndex t' = laneIndex t" "fst (timeIndex t') = snd (timeIndex t')"
proof -
  from assms obtain t1 inner where
    p: "pruneLines E (noteLines t) (t, []) = Inr (t1, inner)"
    and t': "t' = updateNoteMap E (pruneNotes E (notes t1) inner t1)"
    by (auto simp: optimizeNote_def split: sum.splits)
  from pruneLines_lanes [OF p] pruneNotes_lanes [of E "notes t1" inner t1]
  show "fst (noteIndex t') = snd (noteIndex t')" "lanePointIndex t' = lanePointIndex t"
    "laneIndex t' = laneIndex t" "fst (timeIndex t') = snd (timeIndex t')"
    by (simp_all add: t')
qed

lemma optimize_index:
  assumes "optimize E t = Inr t'"
  shows "fst (noteIndex t') = snd (noteIndex t')" "lanePointIndex t' = lanePointIndex t"
    "indexAfter (if merges t then Rebuilt else Untouched) (laneIndex t) (laneIndex t')"
    "fst (timeIndex t') = snd (timeIndex t')"
proof -
  from assms obtain ts t2 where
    s: "sortLanes t (lanes t) = Inr ts" and o: "optimizeNoteLine (mergeLoop E ts) = Inr t2"
      "optimizeNote E t2 = Inr t'"
    by (auto simp: optimize_def optimizeLane_def split: sum.splits)
  note a = sortLanes_index [OF s]
  note b = mergeLoop_index [of E ts]
  note c = optimizeNoteLines_index [OF o(1) [unfolded optimizeNoteLine_def]]
  note d = optimizeNote_index [OF o(2)]
  show "fst (noteIndex t') = snd (noteIndex t')" "fst (timeIndex t') = snd (timeIndex t')"
    using d by simp_all
  show "lanePointIndex t' = lanePointIndex t" using a b c d by simp
  have m: "merges t \<longleftrightarrow> firstMerge ts (lanes ts) \<noteq> None" by (simp add: merges_def s)
  show "indexAfter (if merges t then Rebuilt else Untouched) (laneIndex t) (laneIndex t')"
  proof (cases "firstMerge ts (lanes ts) = None")
    case True
    with b have "mergeLoop E ts = ts" by simp
    with a c d True m show ?thesis by (simp add: indexAfter_def)
  next
    case False
    with b have "fst (laneIndex (mergeLoop E ts)) = snd (laneIndex (mergeLoop E ts))" by simp
    with c d False m show ?thesis by (simp add: indexAfter_def)
  qed
qed

lemma effects_after_operation:
  assumes "perform E op t = Inr t'"
  shows "indexAfter (onNoteMap (effectsOf t op)) (noteIndex t) (noteIndex t') \<and>
     indexAfter (onLanePointMap (effectsOf t op)) (lanePointIndex t) (lanePointIndex t') \<and>
     indexAfter (onLaneMap (effectsOf t op)) (laneIndex t) (laneIndex t') \<and>
     indexAfter (onTimeCalculator (effectsOf t op)) (timeIndex t) (timeIndex t')"
proof (cases op)
  case (AddNote n updMap)
  with assms addNote_index [where b = updMap and t = t and E = E and n = n] show ?thesis
    by (auto simp: allOf_def indexAfter_def)
next
  case (RemoveNote n updMap)
  with assms removeNote_index [where b = updMap and t = t and E = E and n = n] show ?thesis
    by (auto simp: allOf_def indexAfter_def)
next
  case (AddNoteLine nl)
  with assms show ?thesis by (auto simp: allOf_def indexAfter_def)
next
  case (RemoveNoteLine nl)
  with assms show ?thesis by (auto simp: allOf_def indexAfter_def)
next
  case (AddOtherObject ob)
  with assms addOtherObject_index [where E = E and t = t and ob = ob] show ?thesis
    by (auto simp: allOf_def indexAfter_def)
next
  case (RemoveOtherObject ob g)
  with assms removeOtherObject_index [where E = E and t = t and ob = ob and g = g and t' = t']
  show ?thesis
    by (auto simp: allOf_def indexAfter_def)
next
  case (AddLane l)
  with assms lane_ops_index(5-8) [where E = E and t = t and l = l] show ?thesis
    by (auto simp: allOf_def indexAfter_def)
next
  case (SetLanes ls)
  with assms lane_ops_index(1-4) [where E = E and t = t and ls = ls] show ?thesis
    by (auto simp: allOf_def indexAfter_def)
next
  case (AddLanePoint lp)
  with assms addLanePoint_index [where t = t and lp = lp] show ?thesis
    by (auto simp: allOf_def indexAfter_def)
next
  case Optimize
  with assms optimize_index [where E = E and t = t and t' = t'] show ?thesis
    by (auto simp: indexAfter_def)
next
  case Undo
  with assms undo_index [of E t t'] show ?thesis by simp
next
  case Redo
  with assms redo_index [of E t t'] show ?thesis by simp
qed

lemma indexAfter_consistent:
  "indexAfter e before after \<Longrightarrow> e \<noteq> Skipped \<Longrightarrow> fst before = snd before \<Longrightarrow>
   fst after = snd after"
  by (cases e) (auto simp: indexAfter_def)

lemma effectsOf_maps:
  "onLanePointMap (effectsOf t op) \<noteq> Skipped" "onLaneMap (effectsOf t op) \<noteq> Skipped"
  by (cases op; simp add: allOf_def split: option.splits)+

text \<open>
  C5, amended.  Each of \<open>addNote\<close>, \<open>removeNote\<close>, \<open>addNoteLine\<close>, \<open>removeNoteLine\<close>,
  \<open>addOtherObject\<close>, \<open>removeOtherObject\<close>, \<open>addLane\<close>, \<open>setLanes\<close>, \<open>addLanePoint\<close>,
  \<open>optimize\<close>, \<open>undo\<close> and \<open>redo\<close>, whatever the indices were before the call, returns with
  each of \<open>noteMap\<close>, \<open>lanePointMap\<close>, \<open>laneMap\<close> and the \<open>TimeCalculator\<close> as \<open>effectsOf\<close>
  says: rebuilt, and so consistent with its collection; or untouched together with its
  collection, and so as consistent as it was; or skipped, the index of before the call
  beside a changed collection.  Skipped are \<open>noteMap\<close> by \<open>addNote\<close> and \<open>removeNote\<close>
  called with \<open>updateNoteMap = false\<close>, and the \<open>TimeCalculator\<close> by \<open>addOtherObject\<close> and
  \<open>removeOtherObject\<close> of an object that is not a BPM marker.  So a call that does not
  skip the \<open>noteMap\<close> keeps the three maps consistent, and a call that does not skip the
  \<open>TimeCalculator\<close> keeps it consistent.
\<close>

theorem indices_after_operation:
  assumes "perform E op t = Inr t'"
  shows "indexAfter (onNoteMap (effectsOf t op)) (noteIndex t) (noteIndex t') \<and>
     indexAfter (onLanePointMap (effectsOf t op)) (lanePointIndex t) (lanePointIndex t') \<and>
     indexAfter (onLaneMap (effectsOf t op)) (laneIndex t) (laneIndex t') \<and>
     indexAfter (onTimeCalculator (effectsOf t op)) (timeIndex t) (timeIndex t') \<and>
     (mapsConsistent t \<and> onNoteMap (effectsOf t op) \<noteq> Skipped \<longrightarrow> mapsConsistent t') \<and>
     (timeConsistent t \<and> onTimeCalculator (effectsOf t op) \<noteq> Skipped \<longrightarrow> timeConsistent t')"
proof -
  note e = effects_after_operation [OF assms]
  have "mapsConsistent t'" if "mapsConsistent t" "onNoteMap (effectsOf t op) \<noteq> Skipped"
    using e that effectsOf_maps [of t op]
    by (auto simp: consistent_index intro: indexAfter_consistent)
  moreover have "timeConsistent t'"
    if "timeConsistent t" "onTimeCalculator (effectsOf t op) \<noteq> Skipped"
    using e that by (auto simp: consistent_index intro: indexAfter_consistent)
  ultimately show ?thesis using e by blast
qed

lemma exampleMarkers_consistent: "mapsConsistent exampleMarkers" "timeConsistent exampleMarkers"
  by (simp_all add: exampleMarkers_def mapsConsistent_def timeConsistent_def)
     (simp_all add: exampleBpm_def TimelineRecord_def noteMapOf_def lanePointMapOf_def
       laneMapOf_def)

lemma exampleNoteMade_consistent: "mapsConsistent exampleNoteMade"
  by (simp add: exampleNoteMade_def exampleMarkers_def mapsConsistent_def)
     (simp add: exampleBpm_def TimelineRecord_def noteMapOf_def lanePointMapOf_def
       laneMapOf_def)

lemma exampleNoteMade_stale:
  "mapsConsistent (addOtherObject exampleEnv exampleNoteMade 2)"
  "\<not> timeConsistent (addOtherObject exampleEnv exampleNoteMade 2)"
proof -
  have nb: "\<not> isBPM (otherObj exampleNoteMade 2)"
    by (simp add: exampleNoteMade_def exampleMarkers_def exampleBpm_def TimelineRecord_def
        isBPM_def)
  have a: "addOtherObject exampleEnv exampleNoteMade 2 =
      exampleNoteMade\<lparr>otherObjects := otherObjects exampleNoteMade @ [2]\<rparr>"
    using nb by (simp add: addOtherObject_def Let_def)
  from exampleNoteMade_consistent
  show "mapsConsistent (addOtherObject exampleEnv exampleNoteMade 2)"
    by (simp add: consistent_index addOtherObject_index)
  have o: "otherObjects exampleNoteMade = [0]"
    by (simp add: exampleNoteMade_def exampleMarkers_def)
  have tc: "length (tcObjects (timeCalculator exampleNoteMade)) = 1"
    by (simp add: exampleNoteMade_def exampleMarkers_def timeCalculatorOf_def sortMeasure_def)
  have "length (tcObjects (timeCalculatorOf (exampleNoteMade\<lparr>otherObjects := [0, 2]\<rparr>))) = 2"
    by (simp add: timeCalculatorOf_def sortMeasure_def)
  with tc have "\<not> timeConsistent (exampleNoteMade\<lparr>otherObjects := [0, 2]\<rparr>)"
    by (auto simp: timeConsistent_def)
  then show "\<not> timeConsistent (addOtherObject exampleEnv exampleNoteMade 2)"
    by (simp add: a o)
qed

theorem indices_after_operation_witness:
  "mapsConsistent (addOtherObject exampleEnv exampleNoteMade 2) \<and>
   \<not> timeConsistent (addOtherObject exampleEnv exampleNoteMade 2) \<and>
   (\<exists>t'. perform exampleEnv (AddNote 3 True) (addOtherObject exampleEnv exampleNoteMade 2) =
           Inr t' \<and>
      effectsOf (addOtherObject exampleEnv exampleNoteMade 2) (AddNote 3 True) =
        \<lparr>onNoteMap = Rebuilt, onLanePointMap = Untouched, onLaneMap = Untouched,
         onTimeCalculator = Rebuilt\<rparr> \<and>
      mapsConsistent t' \<and> timeConsistent t')"
  using indices_after_operation [of exampleEnv "AddNote 3 True"
      "addOtherObject exampleEnv exampleNoteMade 2"
      "addNote exampleEnv (addOtherObject exampleEnv exampleNoteMade 2) 3 True"]
    exampleNoteMade_stale
  by (simp add: allOf_def indexAfter_def consistent_index)

lemma stale_timeCalculator_example:
  "mapsConsistent exampleMarkers \<and> timeConsistent exampleMarkers \<and>
   perform exampleEnv (AddOtherObject 2) exampleMarkers =
     Inr (addOtherObject exampleEnv exampleMarkers 2) \<and>
   otherObjects (addOtherObject exampleEnv exampleMarkers 2) = [0, 2] \<and>
   length (tcObjects (timeCalculator (addOtherObject exampleEnv exampleMarkers 2))) = 1 \<and>
   \<not> timeConsistent (addOtherObject exampleEnv exampleMarkers 2)"
proof -
  have nb: "\<not> isBPM (otherObj exampleMarkers 2)"
    by (simp add: exampleMarkers_def exampleBpm_def TimelineRecord_def isBPM_def)
  have a: "addOtherObject exampleEnv exampleMarkers 2 =
      exampleMarkers\<lparr>otherObjects := otherObjects exampleMarkers @ [2]\<rparr>"
    using nb by (simp add: addOtherObject_def Let_def)
  have o: "otherObjects exampleMarkers = [0]" by (simp add: exampleMarkers_def)
  have tc: "length (tcObjects (timeCalculator exampleMarkers)) = 1"
    by (simp add: exampleMarkers_def timeCalculatorOf_def sortMeasure_def)
  have "length (tcObjects (timeCalculatorOf (exampleMarkers\<lparr>otherObjects := [0, 2]\<rparr>))) = 2"
    by (simp add: timeCalculatorOf_def sortMeasure_def)
  with tc have "\<not> timeConsistent (exampleMarkers\<lparr>otherObjects := [0, 2]\<rparr>)"
    by (auto simp: timeConsistent_def)
  with exampleMarkers_consistent tc show ?thesis by (simp add: a o)
qed

lemma stale_noteMap_example:
  "mapsConsistent exampleNoteMade \<and>
   perform exampleEnv (AddNote 3 False) exampleNoteMade =
     Inr (addNote exampleEnv exampleNoteMade 3 False) \<and>
   notes (addNote exampleEnv exampleNoteMade 3 False) = [3] \<and>
   noteMap (addNote exampleEnv exampleNoteMade 3 False) = Map.empty \<and>
   noteMapOf (addNote exampleEnv exampleNoteMade 3 False) ''n'' = Some 3 \<and>
   \<not> mapsConsistent (addNote exampleEnv exampleNoteMade 3 False)"
proof -
  have a: "notes (addNote exampleEnv exampleNoteMade 3 False) = [3]"
    "noteMap (addNote exampleEnv exampleNoteMade 3 False) = Map.empty"
    "noteObj (addNote exampleEnv exampleNoteMade 3 False) 3 = defaultNote\<lparr>nguid := ''n''\<rparr>"
    by (simp_all add: addNote_def exampleNoteMade_def exampleMarkers_def exampleBpm_def
        TimelineRecord_def calculateTime_def Let_def)
  have b: "noteMapOf (addNote exampleEnv exampleNoteMade 3 False) ''n'' = Some 3"
    by (simp add: noteMapOf_def a)
  then have "noteMap (addNote exampleEnv exampleNoteMade 3 False) \<noteq>
      noteMapOf (addNote exampleEnv exampleNoteMade 3 False)"
    unfolding a(2) by (metis option.distinct(1))
  then have "\<not> mapsConsistent (addNote exampleEnv exampleNoteMade 3 False)"
    by (simp add: mapsConsistent_def)
  with exampleNoteMade_consistent a b show ?thesis by simp
qed

text \<open>
  C5, as stated, fails.  Adding a speed marker (not a BPM marker) to a timeline whose
  indices are consistent leaves a \<open>TimeCalculator\<close> built from the BPM marker alone, while
  \<open>otherObjects\<close> holds both markers.  And \<open>addNote\<close> called with
  \<open>updateNoteMap = false\<close> on a timeline whose indices are consistent leaves the note in
  \<open>notes\<close> and \<open>noteMap\<close> empty.
\<close>

theorem stale_index_counterexample:
  "(mapsConsistent exampleMarkers \<and> timeConsistent exampleMarkers \<and>
    perform exampleEnv (AddOtherObject 2) exampleMarkers =
      Inr (addOtherObject exampleEnv exampleMarkers 2) \<and>
    otherObjects (addOtherObject exampleEnv exampleMarkers 2) = [0, 2] \<and>
    length (tcObjects (timeCalculator (addOtherObject exampleEnv exampleMarkers 2))) = 1 \<and>
    \<not> timeConsistent (addOtherObject exampleEnv exampleMarkers 2)) \<and>
   (mapsConsistent exampleNoteMade \<and>
    perform exampleEnv (AddNote 3 False) exampleNoteMade =
      Inr (addNote exampleEnv exampleNoteMade 3 False) \<and>
    notes (addNote exampleEnv exampleNoteMade 3 False) = [3] \<and>
    noteMap (addNote exampleEnv exampleNoteMade 3 False) = Map.empty \<and>
    noteMapOf (addNote exampleEnv exampleNoteMade 3 False) ''n'' = Some 3 \<and>
    \<not> mapsConsistent (addNote exampleEnv exampleNoteMade 3 False))"
  using stale_timeCalculator_example stale_noteMap_example by blast

end
